theory Spec2Isabelle
  imports Main
begin

section \<open>Documents\<close>

text \<open>
  The driver hands plain JavaScript objects to the MongoDB client and gets documents
  back. A value is what survives the trip through the store: \<open>undefined\<close> is not
  a stored value, so a property that is not there is \<open>None\<close> of an \<open>option\<close>.
  An object is its list of own properties in insertion order; numbers are the integers;
  a date is its time in milliseconds; \<open>JOid\<close> is an ObjectId, by its hex string.
  A name that reads as a number, which JavaScript would list first, keeps its place
  here. What an object inherits is told apart where the driver reads a property by a
  computed name, in \<open>fetchConfig\<close>.
\<close>

datatype jv =
    JNull
  | JBool bool
  | JNum int
  | JStr string
  | JDate nat
  | JOid string
  | JArr "jv list"
  | JObj "(string \<times> jv) list"

type_synonym obj = "(string \<times> jv) list"

text \<open>\<open>o[k]\<close>: the own property \<open>k\<close>, \<open>None\<close> for \<open>undefined\<close>.\<close>

definition field :: "string \<Rightarrow> (string \<times> 'a) list \<Rightarrow> 'a option" where
  "field k ob = map_of ob k"

text \<open>\<open>o[k] = v\<close>: an existing property keeps its place, a new one goes last.\<close>

fun assign :: "string \<Rightarrow> 'a \<Rightarrow> (string \<times> 'a) list \<Rightarrow> (string \<times> 'a) list" where
  "assign k v [] = [(k, v)]"
| "assign k v ((k', v') # ob) =
     (if k' = k then (k, v) # ob else (k', v') # assign k v ob)"

text \<open>\<open>delete o[k]\<close>.\<close>

fun remove :: "string \<Rightarrow> obj \<Rightarrow> obj" where
  "remove k [] = []"
| "remove k ((k', v') # ob) =
     (if k' = k then remove k ob else (k', v') # remove k ob)"

text \<open>
  \<open>{ ...a, ...b }\<close>: the properties of \<open>b\<close> are assigned onto a copy of \<open>a\<close>, in
  the order \<open>b\<close> lists them.
\<close>

fun spread :: "obj \<Rightarrow> obj \<Rightarrow> obj" where
  "spread a [] = a"
| "spread a ((k, v) # b) = spread (assign k v a) b"

text \<open>An optional argument that was not passed spreads to nothing.\<close>

definition spread_opt :: "obj \<Rightarrow> obj option \<Rightarrow> obj" where
  "spread_opt a b = (case b of None \<Rightarrow> a | Some b' \<Rightarrow> spread a b')"

subsection \<open>Numbers in property names\<close>

text \<open>
  \<open>'emails.' + idx\<close> renders the number in decimal, and the store reads a path
  component back as an array index when it is such a numeral.
\<close>

definition digit_char :: "nat \<Rightarrow> char" where
  "digit_char d = ''0123456789'' ! d"

definition digit_of :: "char \<Rightarrow> nat option" where
  "digit_of c = map_of (zip ''0123456789'' [0, 1, 2, 3, 4, 5, 6, 7, 8, 9]) c"

function show_nat :: "nat \<Rightarrow> string" where
  "show_nat n = (if n < 10 then [digit_char n]
                 else show_nat (n div 10) @ [digit_char (n mod 10)])"
  by pat_completeness auto
termination
  by (relation "measure id") auto

declare show_nat.simps [simp del]

definition show_int :: "int \<Rightarrow> string" where
  "show_int i = (if i < 0 then CHR ''-'' # show_nat (nat (- i)) else show_nat (nat i))"

fun digits_val :: "nat \<Rightarrow> string \<Rightarrow> nat option" where
  "digits_val acc [] = Some acc"
| "digits_val acc (c # cs) =
     (case digit_of c of None \<Rightarrow> None | Some d \<Rightarrow> digits_val (10 * acc + d) cs)"

definition parse_index :: "string \<Rightarrow> nat option" where
  "parse_index s =
     (if s = [] then None
      else case digits_val 0 s of
             None \<Rightarrow> None
           | Some n \<Rightarrow> if show_nat n = s then Some n else None)"

text \<open>A dotted path is cut at every dot.\<close>

fun split_path :: "string \<Rightarrow> string list" where
  "split_path [] = [[]]"
| "split_path (c # cs) =
     (if c = CHR ''.'' then [] # split_path cs
      else case split_path cs of [] \<Rightarrow> [[c]] | w # ws \<Rightarrow> (c # w) # ws)"

section \<open>The document store\<close>

text \<open>
  The store is not part of the driver: what follows is the behaviour of the MongoDB
  calls the driver makes, as far as its calls reach it. A collection is the list of
  its documents in natural order.
\<close>

datatype error =
    TypeError
  | DuplicateKey
  | PathNotViable
  | EmptyFieldName
  | ConflictingUpdate
  | NotAnArray
  | InvalidCollectionName

subsection \<open>Queries\<close>

text \<open>
  One step of a dotted path from a value: the field of an embedded document; in an
  array, the element at that index and the field of every element that is a document.
\<close>

definition field_of :: "string \<Rightarrow> jv \<Rightarrow> jv list" where
  "field_of k v =
     (case v of
        JObj ob \<Rightarrow> (case field k ob of None \<Rightarrow> [] | Some w \<Rightarrow> [w])
      | _ \<Rightarrow> [])"

definition step :: "string \<Rightarrow> jv \<Rightarrow> jv list" where
  "step k v =
     (case v of
        JObj ob \<Rightarrow> field_of k v
      | JArr xs \<Rightarrow>
          (case parse_index k of
             None \<Rightarrow> []
           | Some i \<Rightarrow> if i < length xs then [xs ! i] else [])
          @ concat (map (field_of k) xs)
      | _ \<Rightarrow> [])"

fun reach :: "string list \<Rightarrow> jv \<Rightarrow> jv list" where
  "reach [] v = [v]"
| "reach (k # ks) v = concat (map (reach ks) (step k v))"

text \<open>
  A reached value equals the queried one when it is that value or an array holding it.
\<close>

definition value_matches :: "jv \<Rightarrow> jv \<Rightarrow> bool" where
  "value_matches q v =
     (v = q \<or> (case v of JArr xs \<Rightarrow> q \<in> set xs | _ \<Rightarrow> False))"

datatype filter =
    Field string jv
  | Or "filter list"

text \<open>
  \<open>{ path: q }\<close> and \<open>{ $or: [...] }\<close>. A query for \<open>null\<close> also matches a
  document in which the path reaches nothing.
\<close>

fun matches :: "filter \<Rightarrow> obj \<Rightarrow> bool" where
  "matches (Field p q) d =
     (list_ex (value_matches q) (reach (split_path p) (JObj d))
      \<or> (q = JNull \<and> reach (split_path p) (JObj d) = []))"
| "matches (Or fs) d = list_ex (\<lambda>f. matches f d) fs"

definition find_one :: "filter \<Rightarrow> obj list \<Rightarrow> obj option" where
  "find_one f c = List.find (matches f) c"

subsection \<open>Inserts\<close>

text \<open>
  \<open>_id\<close> is unique in a collection. A document without one is given the ObjectId
  \<open>oid\<close> by the client library.
\<close>

definition has_id :: "jv \<Rightarrow> obj list \<Rightarrow> bool" where
  "has_id i c = list_ex (\<lambda>d. field ''_id'' d = Some i) c"

definition insert_one :: "string \<Rightarrow> obj \<Rightarrow> obj list \<Rightarrow> error + obj list" where
  "insert_one oid d c =
     (case field ''_id'' d of
        None \<Rightarrow>
          if has_id (JOid oid) c then Inl DuplicateKey
          else Inr (c @ [d @ [(''_id'', JOid oid)]])
      | Some i \<Rightarrow>
          if has_id i c then Inl DuplicateKey else Inr (c @ [d]))"

subsection \<open>Updates\<close>

text \<open>
  \<open>$set\<close> along a path below the top-level field: a missing part is created as
  embedded documents, an array is entered by index (and padded with \<open>null\<close> up to
  it), nothing can be created inside a scalar.
\<close>

fun set_in :: "string list \<Rightarrow> jv \<Rightarrow> jv option \<Rightarrow> error + jv" where
  "set_in [] v cur = Inr v"
| "set_in (k # ks) v None =
     (case set_in ks v None of Inl e \<Rightarrow> Inl e | Inr c \<Rightarrow> Inr (JObj [(k, c)]))"
| "set_in (k # ks) v (Some (JObj ob)) =
     (case set_in ks v (field k ob) of
        Inl e \<Rightarrow> Inl e
      | Inr c \<Rightarrow> Inr (JObj (assign k c ob)))"
| "set_in (k # ks) v (Some (JArr xs)) =
     (case parse_index k of
        None \<Rightarrow> Inl PathNotViable
      | Some i \<Rightarrow>
          if i < length xs then
            (case set_in ks v (Some (xs ! i)) of
               Inl e \<Rightarrow> Inl e
             | Inr c \<Rightarrow> Inr (JArr (xs[i := c])))
          else
            (case set_in ks v None of
               Inl e \<Rightarrow> Inl e
             | Inr c \<Rightarrow> Inr (JArr (xs @ replicate (i - length xs) JNull @ [c]))))"
| "set_in (k # ks) v (Some other) = Inl PathNotViable"

definition set_path :: "string \<Rightarrow> jv \<Rightarrow> obj \<Rightarrow> error + obj" where
  "set_path p v d =
     (case split_path p of
        [] \<Rightarrow> Inl EmptyFieldName
      | k # ks \<Rightarrow>
          (case set_in ks v (field k d) of
             Inl e \<Rightarrow> Inl e
           | Inr c \<Rightarrow> Inr (assign k c d)))"

text \<open>
  \<open>$unset\<close>: the field is removed from its document; an array element is set to
  \<open>null\<close>; a path that reaches nothing changes nothing.
\<close>

fun unset_in :: "string list \<Rightarrow> jv \<Rightarrow> jv" where
  "unset_in [] v = v"
| "unset_in (k # ks) (JObj ob) =
     (case field k ob of
        None \<Rightarrow> JObj ob
      | Some c \<Rightarrow>
          if ks = [] then JObj (remove k ob)
          else JObj (assign k (unset_in ks c) ob))"
| "unset_in (k # ks) (JArr xs) =
     (case parse_index k of
        None \<Rightarrow> JArr xs
      | Some i \<Rightarrow>
          if i < length xs then
            (if ks = [] then JArr (xs[i := JNull])
             else JArr (xs[i := unset_in ks (xs ! i)]))
          else JArr xs)"
| "unset_in (k # ks) other = other"

definition unset_path :: "string \<Rightarrow> obj \<Rightarrow> obj" where
  "unset_path p d =
     (case unset_in (split_path p) (JObj d) of JObj d' \<Rightarrow> d' | _ \<Rightarrow> d)"

text \<open>\<open>$push\<close>: appends to the array at the path, which is created when missing.\<close>

fun get_in :: "string list \<Rightarrow> jv \<Rightarrow> jv option" where
  "get_in [] v = Some v"
| "get_in (k # ks) (JObj ob) =
     (case field k ob of None \<Rightarrow> None | Some c \<Rightarrow> get_in ks c)"
| "get_in (k # ks) (JArr xs) =
     (case parse_index k of
        None \<Rightarrow> None
      | Some i \<Rightarrow> if i < length xs then get_in ks (xs ! i) else None)"
| "get_in (k # ks) other = None"

definition push_path :: "string \<Rightarrow> jv \<Rightarrow> obj \<Rightarrow> error + obj" where
  "push_path p v d =
     (case get_in (split_path p) (JObj d) of
        None \<Rightarrow> set_path p (JArr [v]) d
      | Some (JArr xs) \<Rightarrow> set_path p (JArr (xs @ [v])) d
      | Some other \<Rightarrow> Inl NotAnArray)"

text \<open>
  The update document: the entries of \<open>$set\<close>, the paths of \<open>$unset\<close> and of
  \<open>$currentDate\<close>, the entries of \<open>$push\<close>. No two of its paths may be the same
  or lead one into the other, and no path component may be empty.
\<close>

record update =
  u_set :: "(string \<times> jv) list"
  u_unset :: "string list"
  u_currentDate :: "string list"
  u_push :: "(string \<times> jv) list"

definition clash :: "string list \<Rightarrow> string list \<Rightarrow> bool" where
  "clash p q = (take (length p) q = p \<or> take (length q) p = q)"

fun no_conflicts :: "string list list \<Rightarrow> bool" where
  "no_conflicts [] = True"
| "no_conflicts (p # ps) = (list_all (\<lambda>q. \<not> clash p q) ps \<and> no_conflicts ps)"

definition update_paths :: "update \<Rightarrow> string list list" where
  "update_paths u =
     map split_path (map fst (u_set u) @ u_unset u @ u_currentDate u @ map fst (u_push u))"

fun set_all :: "(string \<times> jv) list \<Rightarrow> obj \<Rightarrow> error + obj" where
  "set_all [] d = Inr d"
| "set_all ((p, v) # ps) d =
     (case set_path p v d of Inl e \<Rightarrow> Inl e | Inr d' \<Rightarrow> set_all ps d')"

fun push_all :: "(string \<times> jv) list \<Rightarrow> obj \<Rightarrow> error + obj" where
  "push_all [] d = Inr d"
| "push_all ((p, v) # ps) d =
     (case push_path p v d of Inl e \<Rightarrow> Inl e | Inr d' \<Rightarrow> push_all ps d')"

definition apply_update :: "nat \<Rightarrow> update \<Rightarrow> obj \<Rightarrow> error + obj" where
  "apply_update now u d =
     (if list_ex (\<lambda>p. [] \<in> set p) (update_paths u) then Inl EmptyFieldName
      else if \<not> no_conflicts (update_paths u) then Inl ConflictingUpdate
      else
        case set_all (u_set u) d of
          Inl e \<Rightarrow> Inl e
        | Inr d1 \<Rightarrow>
            (case push_all (u_push u) (fold unset_path (u_unset u) d1) of
               Inl e \<Rightarrow> Inl e
             | Inr d2 \<Rightarrow> set_all (map (\<lambda>p. (p, JDate now)) (u_currentDate u)) d2))"

text \<open>
  \<open>updateOne\<close> changes the first document the filter matches and none when there
  is no match.
\<close>

fun update_first :: "filter \<Rightarrow> nat \<Rightarrow> update \<Rightarrow> obj list \<Rightarrow> error + obj list" where
  "update_first f now u [] = Inr []"
| "update_first f now u (d # c) =
     (if matches f d then
        (case apply_update now u d of Inl e \<Rightarrow> Inl e | Inr d' \<Rightarrow> Inr (d' # c))
      else
        (case update_first f now u c of Inl e \<Rightarrow> Inl e | Inr c' \<Rightarrow> Inr (d # c')))"

section \<open>The world around the driver\<close>

text \<open>
  The database the driver was constructed with, and what the host gives it: the
  collections by name, the requests the store has received (in order), the store's
  clock (read by \<open>$currentDate\<close>), the host's clock (read by \<open>new Date()\<close>), the
  ObjectIds the client library hands out, which collection names it resolves, and
  how the host prints a date and a number.
\<close>

datatype request = FindOne | FindAll | InsertOne | UpdateOne

record world =
  colls :: "string \<Rightarrow> obj list"
  oplog :: "(string \<times> request) list"
  server_clock :: nat
  client_clock :: nat
  oid_supply :: "nat \<Rightarrow> string"
  oids_made :: nat
  resolvable :: "string \<Rightarrow> bool"
  date_string :: "nat \<Rightarrow> string"
  number_string :: "int \<Rightarrow> string"

definition log_request :: "string \<Rightarrow> request \<Rightarrow> world \<Rightarrow> world" where
  "log_request n r w = w\<lparr>oplog := oplog w @ [(n, r)]\<rparr>"

text \<open>
  The methods of a collection handle. The handle is \<open>this.users\<close> or
  \<open>this.config\<close>, which is \<open>undefined\<close> until \<open>_init\<close> has resolved it: a call on
  it then is a TypeError. \<open>findOne\<close> gives the first document that matches, and
  \<open>null\<close> (which is not \<open>undefined\<close>, the \<open>None\<close> of its reply) when nothing
  matches.
\<close>

definition collection :: "string \<Rightarrow> world \<Rightarrow> error + string" where
  "collection n w = (if resolvable w n then Inr n else Inl InvalidCollectionName)"

definition findOne ::
  "string option \<Rightarrow> filter \<Rightarrow> world \<Rightarrow> (error + jv option) \<times> world" where
  "findOne h f w =
     (case h of
        None \<Rightarrow> (Inl TypeError, w)
      | Some n \<Rightarrow>
          (Inr (case find_one f (colls w n) of None \<Rightarrow> Some JNull | Some d \<Rightarrow> Some (JObj d)),
           log_request n FindOne w))"

definition find_toArray :: "string option \<Rightarrow> world \<Rightarrow> (error + obj list) \<times> world" where
  "find_toArray h w =
     (case h of
        None \<Rightarrow> (Inl TypeError, w)
      | Some n \<Rightarrow> (Inr (colls w n), log_request n FindAll w))"

definition insertOne :: "string option \<Rightarrow> obj \<Rightarrow> world \<Rightarrow> (error + unit) \<times> world" where
  "insertOne h d w =
     (case h of
        None \<Rightarrow> (Inl TypeError, w)
      | Some n \<Rightarrow>
          (let w1 = (if field ''_id'' d = None then w\<lparr>oids_made := Suc (oids_made w)\<rparr> else w)
           in case insert_one (oid_supply w (oids_made w)) d (colls w n) of
                Inl e \<Rightarrow> (Inl e, log_request n InsertOne w1)
              | Inr c \<Rightarrow>
                  (Inr (), log_request n InsertOne (w1\<lparr>colls := (colls w1)(n := c)\<rparr>))))"

definition updateOne ::
  "string option \<Rightarrow> filter \<Rightarrow> update \<Rightarrow> world \<Rightarrow> (error + unit) \<times> world" where
  "updateOne h f u w =
     (case h of
        None \<Rightarrow> (Inl TypeError, w)
      | Some n \<Rightarrow>
          (case update_first f (server_clock w) u (colls w n) of
             Inl e \<Rightarrow> (Inl e, log_request n UpdateOne w)
           | Inr c \<Rightarrow>
               (Inr (), log_request n UpdateOne (w\<lparr>colls := (colls w)(n := c)\<rparr>))))"

subsection \<open>What JavaScript does with values\<close>

definition truthy :: "jv option \<Rightarrow> bool" where
  "truthy v =
     (case v of
        None \<Rightarrow> False
      | Some JNull \<Rightarrow> False
      | Some (JBool b) \<Rightarrow> b
      | Some (JNum n) \<Rightarrow> n \<noteq> 0
      | Some (JStr s) \<Rightarrow> s \<noteq> []
      | Some other \<Rightarrow> True)"

fun join_comma :: "string list \<Rightarrow> string" where
  "join_comma [] = []"
| "join_comma [s] = s"
| "join_comma (s # t # ss) = s @ '','' @ join_comma (t # ss)"

text \<open>\<open>String(v)\<close>, with the host's way of printing a date and a number.\<close>

fun to_string :: "(nat \<Rightarrow> string) \<Rightarrow> (int \<Rightarrow> string) \<Rightarrow> jv \<Rightarrow> string" where
  "to_string ds ns JNull = ''null''"
| "to_string ds ns (JBool b) = (if b then ''true'' else ''false'')"
| "to_string ds ns (JNum n) = ns n"
| "to_string ds ns (JStr s) = s"
| "to_string ds ns (JDate t) = ds t"
| "to_string ds ns (JOid s) = s"
| "to_string ds ns (JArr xs) =
     join_comma (map (\<lambda>x. if x = JNull then [] else to_string ds ns x) xs)"
| "to_string ds ns (JObj ob) = ''[object Object]''"

text \<open>
  The property name a value is used as, \<open>out[row.type]\<close>, when the conversion
  succeeds.
\<close>

definition to_key :: "(nat \<Rightarrow> string) \<Rightarrow> (int \<Rightarrow> string) \<Rightarrow> jv option \<Rightarrow> string" where
  "to_key ds ns v = (case v of None \<Rightarrow> ''undefined'' | Some x \<Rightarrow> to_string ds ns x)"

subsection \<open>What an object inherits\<close>

text \<open>
  Every object inherits the properties of \<open>Object.prototype\<close>: the functions named
  below, and \<open>__proto__\<close>, which reads as the prototype of the object and, when
  assigned an object, sets the prototype and makes no property. A property put on
  \<open>Object.prototype\<close> is inherited like the others and comes before a function of
  the same name. The driver is a module, and so strict code: an assignment that
  cannot be made throws a TypeError.
\<close>

definition inherited_functions :: "string list" where
  "inherited_functions =
     [''constructor'', ''__defineGetter__'', ''__defineSetter__'', ''hasOwnProperty'',
      ''__lookupGetter__'', ''__lookupSetter__'', ''isPrototypeOf'',
      ''propertyIsEnumerable'', ''toString'', ''valueOf'', ''toLocaleString'']"

definition inherited_names :: "string list" where
  "inherited_names = ''__proto__'' # inherited_functions"

text \<open>
  The objects \<open>fetchConfig\<close> works on: the own properties of \<open>out\<close> (an object for
  a type), the rows the call has put on \<open>Object.prototype\<close>, and the inherited
  functions whose prototype the call has replaced by a row.
\<close>

type_synonym table = "(string \<times> obj) list"

record objects =
  made :: table
  on_prototype :: table
  reparented :: "string list"

text \<open>
  The properties of the inherited function \<open>f\<close> that cannot be assigned: its own
  \<open>name\<close> and \<open>length\<close> (and \<open>prototype\<close>, of the constructor \<open>Object\<close>) are
  read-only, and \<open>caller\<close> and \<open>arguments\<close> are inherited from
  \<open>Function.prototype\<close> with a setter that throws.
\<close>

definition read_only_of :: "objects \<Rightarrow> string \<Rightarrow> string list" where
  "read_only_of s f =
     [''name'', ''length'']
     @ (if f = ''constructor'' then [''prototype''] else [])
     @ (if f \<in> set (reparented s) then [] else [''caller'', ''arguments''])"

text \<open>What \<open>out[k]\<close> is.\<close>

datatype place =
    Entry obj
  | ThePrototype
  | OnPrototype obj
  | AFunction
  | Nothing

definition lookup :: "objects \<Rightarrow> string \<Rightarrow> place" where
  "lookup s k =
     (case field k (made s) of
        Some inner \<Rightarrow> Entry inner
      | None \<Rightarrow>
          if k = ''__proto__'' then ThePrototype
          else case field k (on_prototype s) of
                 Some r \<Rightarrow> OnPrototype r
               | None \<Rightarrow> if k \<in> set inherited_functions then AFunction else Nothing)"

text \<open>
  \<open>row.type\<close> and \<open>row._id\<close>: the row's own property, or else one that has been
  put on \<open>Object.prototype\<close>.
\<close>

definition read :: "table \<Rightarrow> string \<Rightarrow> obj \<Rightarrow> jv option" where
  "read proto k row =
     (case field k row of
        Some v \<Rightarrow> Some v
      | None \<Rightarrow> (case field k proto of None \<Rightarrow> None | Some r \<Rightarrow> Some (JObj r)))"

text \<open>
  Whether \<open>String(v)\<close> returns. A plain object is printed by the \<open>toString\<close> it has
  or inherits; a stored value or a row in that place is no function, and the
  conversion throws a TypeError. An array prints its elements.
\<close>

fun stringifies :: "table \<Rightarrow> jv \<Rightarrow> bool" where
  "stringifies proto (JObj ob) =
     (field ''toString'' ob = None \<and> field ''toString'' proto = None)"
| "stringifies proto (JArr xs) = list_all (\<lambda>x. x = JNull \<or> stringifies proto x) xs"
| "stringifies proto v = True"

definition key_of ::
  "(nat \<Rightarrow> string) \<Rightarrow> (int \<Rightarrow> string) \<Rightarrow> table \<Rightarrow> jv option \<Rightarrow> error + string" where
  "key_of ds ns proto v =
     (case v of
        None \<Rightarrow> Inr ''undefined''
      | Some x \<Rightarrow> if stringifies proto x then Inr (to_key ds ns v) else Inl TypeError)"

section \<open>The driver\<close>

subsection \<open>Construction and readiness\<close>

text \<open>
  \<open>class MongoDbDriver\<close>. \<open>readySubs\<close> holds the \<open>resolve\<close> callbacks of the
  promises \<open>_ready()\<close> has handed out and not resolved; \<open>'w\<close> names the one who waits
  on such a promise. \<open>initted\<close> is \<open>undefined\<close> after construction, which is
  \<open>False\<close> here. (\<open>_init\<close> and \<open>_ready\<close> are \<open>init\<close> and \<open>ready\<close> below.)
\<close>

record 'w driver =
  userTableName :: string
  configTableName :: string
  dbName :: "string option"
  readySubs :: "'w list"
  initted :: bool
  users :: "string option"
  config :: "string option"

record options =
  opt_userTableName :: "string option"
  opt_configTableName :: "string option"
  opt_dbName :: "string option"
  opt_init :: "bool option"

text \<open>
  \<open>while (this.readySubs.length) this.readySubs.shift().call()\<close>: the queue that is
  left and the callbacks called so far, in the order of the calls.
\<close>

fun release :: "'w list \<Rightarrow> 'w list \<Rightarrow> 'w list \<times> 'w list" where
  "release [] called = ([], called)"
| "release (s # subs) called = release subs (called @ [s])"

text \<open>
  \<open>_init\<close> gives the callbacks it has called. When a collection cannot be resolved
  it throws where it stands, and the driver stays as far as it got.
\<close>

definition init :: "'w driver \<Rightarrow> world \<Rightarrow> (error + 'w list) \<times> 'w driver" where
  "init d w =
     (case collection (userTableName d) w of
        Inl e \<Rightarrow> (Inl e, d)
      | Inr u \<Rightarrow>
          (let d1 = d\<lparr>users := Some u\<rparr>
           in case collection (configTableName d1) w of
                Inl e \<Rightarrow> (Inl e, d1)
              | Inr c \<Rightarrow>
                  (let d2 = d1\<lparr>config := Some c\<rparr>;
                       d3 = d2\<lparr>initted := True\<rparr>;
                       (subs, called) = release (readySubs d3) []
                   in (Inr called, d3\<lparr>readySubs := subs\<rparr>))))"

text \<open>\<open>_ready()\<close> for the waiter \<open>x\<close>: \<open>True\<close> when its promise is resolved at once.\<close>

definition ready :: "'w \<Rightarrow> 'w driver \<Rightarrow> bool \<times> 'w driver" where
  "ready x d =
     (if initted d then (True, d)
      else (False, d\<lparr>readySubs := readySubs d @ [x]\<rparr>))"

definition or_default :: "string option \<Rightarrow> string \<Rightarrow> string" where
  "or_default v dflt = (case v of None \<Rightarrow> dflt | Some s \<Rightarrow> if s = [] then dflt else s)"

text \<open>
  The constructor starts \<open>_init\<close> unless \<open>options.init\<close> is \<open>false\<close> and does not
  look at how it ends.
\<close>

definition constructor :: "options \<Rightarrow> world \<Rightarrow> 'w driver" where
  "constructor opts w =
     (let d = \<lparr> userTableName = or_default (opt_userTableName opts) ''users'',
                configTableName = or_default (opt_configTableName opts) ''apolloPassportConfig'',
                dbName = opt_dbName opts,
                readySubs = [],
                initted = False,
                users = None,
                config = None \<rparr>
      in if opt_init opts \<noteq> Some False then snd (init d w) else d)"

subsection \<open>The operations, after the gate\<close>

text \<open>
  What each operation does once \<open>await this._ready()\<close> has let it through: the
  value it returns (\<open>None\<close> is \<open>undefined\<close>) or the error it throws, and the world
  it leaves. An error leaves the world as the requests before it made it.
\<close>

type_synonym 'a result = "(error + 'a) \<times> world"

text \<open>
  The body of the \<open>forEach\<close> in \<open>fetchConfig\<close>:
  \<^verbatim>\<open>if (!out[row.type]) out[row.type] = {}; out[row.type][row._id] = row;\<close>
  Only a name that is neither an own property of \<open>out\<close> nor inherited gets a new
  object. The row then goes where \<open>out[row.type]\<close> leads: into the object made for
  the type, onto \<open>Object.prototype\<close>, into a row that is on \<open>Object.prototype\<close>, or
  onto an inherited function (where it is out of the reach of \<open>out\<close>). The two
  names are converted first here; the code converts \<open>row._id\<close> after the first
  statement, and a call that throws returns nothing of \<open>out\<close>. An object whose
  prototype becomes a row keeps its own properties, and only these are followed.
\<close>

definition add_row ::
  "(nat \<Rightarrow> string) \<Rightarrow> (int \<Rightarrow> string) \<Rightarrow> obj \<Rightarrow> objects \<Rightarrow> error + objects" where
  "add_row ds ns row s =
     (case key_of ds ns (on_prototype s) (read (on_prototype s) ''type'' row) of
        Inl e \<Rightarrow> Inl e
      | Inr t \<Rightarrow>
     (case key_of ds ns (on_prototype s) (read (on_prototype s) ''_id'' row) of
        Inl e \<Rightarrow> Inl e
      | Inr i \<Rightarrow>
        (let s1 = (case lookup s t of
                     Nothing \<Rightarrow> s\<lparr>made := assign t [] (made s)\<rparr>
                   | _ \<Rightarrow> s)
         in case lookup s1 t of
              Entry inner \<Rightarrow>
                Inr (if i = ''__proto__'' then s1
                     else s1\<lparr>made := assign t (assign i (JObj row) inner) (made s1)\<rparr>)
            | ThePrototype \<Rightarrow>
                if i = ''__proto__'' then Inl TypeError
                else Inr (s1\<lparr>on_prototype := assign i row (on_prototype s1)\<rparr>)
            | OnPrototype r \<Rightarrow>
                Inr (if i = ''__proto__'' then s1
                     else s1\<lparr>on_prototype :=
                              assign t (assign i (JObj row) r) (on_prototype s1)\<rparr>)
            | AFunction \<Rightarrow>
                if i \<in> set (read_only_of s1 t) then Inl TypeError
                else Inr (if i = ''__proto__'' then s1\<lparr>reparented := t # reparented s1\<rparr>
                          else s1)
            | Nothing \<Rightarrow> Inl TypeError)))"

text \<open>\<open>results.forEach\<close>: row after row, up to the first that throws.\<close>

fun add_rows ::
  "(nat \<Rightarrow> string) \<Rightarrow> (int \<Rightarrow> string) \<Rightarrow> obj list \<Rightarrow> objects \<Rightarrow> error + objects" where
  "add_rows ds ns [] s = Inr s"
| "add_rows ds ns (row # rows) s =
     (case add_row ds ns row s of
        Inl e \<Rightarrow> Inl e
      | Inr s1 \<Rightarrow> add_rows ds ns rows s1)"

text \<open>
  \<open>fetchConfig\<close> returns \<open>out\<close>, here with its own properties. The rows of the
  store are plain objects with the stored fields, and the call starts from
  \<open>Object.prototype\<close> as the host provides it: what a call has put there is not
  followed into later calls.
\<close>

definition fresh :: objects where
  "fresh = \<lparr> made = [], on_prototype = [], reparented = [] \<rparr>"

definition fetchConfig_run :: "'w driver \<Rightarrow> world \<Rightarrow> jv option result" where
  "fetchConfig_run d w =
     (case find_toArray (config d) w of
        (Inl e, w1) \<Rightarrow> (Inl e, w1)
      | (Inr results, w1) \<Rightarrow>
          (case add_rows (date_string w1) (number_string w1) results fresh of
             Inl e \<Rightarrow> (Inl e, w1)
           | Inr s \<Rightarrow> (Inr (Some (JObj (map (\<lambda>p. (fst p, JObj (snd p))) (made s)))), w1)))"

definition setConfigKey_run ::
  "string \<Rightarrow> string \<Rightarrow> obj \<Rightarrow> 'w driver \<Rightarrow> world \<Rightarrow> jv option result" where
  "setConfigKey_run type id' val d w =
     (case insertOne (config d) (spread [(''type'', JStr type), (''_id'', JStr id')] val) w of
        (Inl e, w1) \<Rightarrow> (Inl e, w1)
      | (Inr _, w1) \<Rightarrow> (Inr None, w1))"

definition createUser_run :: "obj \<Rightarrow> 'w driver \<Rightarrow> world \<Rightarrow> jv option result" where
  "createUser_run user d w =
     (let fresh = \<not> truthy (field ''_id'' user);
          user1 = (if fresh then assign ''_id'' (JStr (oid_supply w (oids_made w))) user
                   else user);
          w1 = (if fresh then w\<lparr>oids_made := Suc (oids_made w)\<rparr> else w);
          user2 = assign ''dateUpdated'' (JDate (client_clock w1)) user1;
          user3 = assign ''dateAdded'' (JDate (client_clock w1)) user2;
          user4 = assign ''dateRegistered'' (JDate (client_clock w1)) user3;
          id' = field ''_id'' user4
      in case insertOne (users d) user4 w1 of
           (Inl e, w2) \<Rightarrow> (Inl e, w2)
         | (Inr _, w2) \<Rightarrow> (Inr id', w2))"

definition updateUser_run ::
  "string \<Rightarrow> obj \<Rightarrow> 'w driver \<Rightarrow> world \<Rightarrow> jv option result" where
  "updateUser_run userId updatedUser d w =
     (case updateOne (users d) (Field ''_id'' (JStr userId))
             \<lparr> u_set = updatedUser, u_unset = [], u_currentDate = [''dateUpdated''],
               u_push = [] \<rparr> w of
        (Inl e, w1) \<Rightarrow> (Inl e, w1)
      | (Inr _, w1) \<Rightarrow> (Inr (Some (JNum 1)), w1))"

definition fetchUserById_run :: "string \<Rightarrow> 'w driver \<Rightarrow> world \<Rightarrow> jv option result" where
  "fetchUserById_run userId d w =
     (case findOne (users d) (Field ''_id'' (JStr userId)) w of
        (Inl e, w1) \<Rightarrow> (Inl e, w1)
      | (Inr r, w1) \<Rightarrow> (Inr r, w1))"

text \<open>\<open>results || null\<close>: \<open>null\<close> for every reply that is not truthy.\<close>

definition or_null :: "jv option \<Rightarrow> jv option" where
  "or_null r = (if truthy r then r else Some JNull)"

text \<open>
  The two lookups by address hand \<open>email\<close> and \<open>id\<close> to the query as they come:
  whatever value the caller passes, \<open>null\<close> too, is the value queried for. Only
  \<open>service\<close> is made part of a string.
\<close>

definition fetchUserByEmail_run :: "jv \<Rightarrow> 'w driver \<Rightarrow> world \<Rightarrow> jv option result" where
  "fetchUserByEmail_run email d w =
     (case findOne (users d) (Field ''emails.value'' email) w of
        (Inl e, w1) \<Rightarrow> (Inl e, w1)
      | (Inr results, w1) \<Rightarrow> (Inr (or_null results), w1))"

definition fetchUserByServiceIdOrEmail_run ::
  "string \<Rightarrow> jv \<Rightarrow> jv \<Rightarrow> 'w driver \<Rightarrow> world \<Rightarrow> jv option result" where
  "fetchUserByServiceIdOrEmail_run service id' email d w =
     (case findOne (users d)
             (Or [Field (''services.'' @ service @ ''.id'') id',
                  Field ''emails.value'' email]) w of
        (Inl e, w1) \<Rightarrow> (Inl e, w1)
      | (Inr results, w1) \<Rightarrow> (Inr (or_null results), w1))"

text \<open>
  The names of an object literal with computed keys: a key written twice is one
  property.
\<close>

definition verifyUserAccount_run ::
  "string \<Rightarrow> string option \<Rightarrow> string option \<Rightarrow> string option \<Rightarrow>
   'w driver \<Rightarrow> world \<Rightarrow> jv option result" where
  "verifyUserAccount_run userId verifiedField tokenField tokenExpirationField d w =
     (let vf = (case verifiedField of None \<Rightarrow> ''verified'' | Some s \<Rightarrow> s);
          tf = (case tokenField of None \<Rightarrow> ''verificationToken'' | Some s \<Rightarrow> s);
          tef = (case tokenExpirationField of
                   None \<Rightarrow> ''verificationTokenExpiration'' | Some s \<Rightarrow> s)
      in case findOne (users d) (Field ''_id'' (JStr userId)) w of
           (Inl e, w1) \<Rightarrow> (Inl e, w1)
         | (Inr user, w1) \<Rightarrow>
             (case updateOne (users d) (Field ''_id'' (JStr userId))
                     \<lparr> u_set = [(vf, JBool True)],
                       u_unset = map fst (assign tef (JStr []) (assign tf (JStr []) [])),
                       u_currentDate = [''dateUpdated''],
                       u_push = [] \<rparr> w1 of
                (Inl e, w2) \<Rightarrow> (Inl e, w2)
              | (Inr _, w2) \<Rightarrow> (Inr None, w2)))"

definition addResetPasswordToken_run ::
  "string \<Rightarrow> jv \<Rightarrow> jv \<Rightarrow> string option \<Rightarrow> string option \<Rightarrow>
   'w driver \<Rightarrow> world \<Rightarrow> jv option result" where
  "addResetPasswordToken_run userId token tokenExpiration tokenField tokenExpirationField d w =
     (let tf = (case tokenField of None \<Rightarrow> ''resetPassToken'' | Some s \<Rightarrow> s);
          tef = (case tokenExpirationField of
                   None \<Rightarrow> ''resetPassTokenExpiration'' | Some s \<Rightarrow> s)
      in case updateOne (users d) (Field ''_id'' (JStr userId))
              \<lparr> u_set = assign tef tokenExpiration (assign tf token []),
                u_unset = [''verificationToken'', ''tokenExpirationField''],
                u_currentDate = [''dateUpdated''],
                u_push = [] \<rparr> w of
           (Inl e, w1) \<Rightarrow> (Inl e, w1)
         | (Inr _, w1) \<Rightarrow> (Inr None, w1))"

text \<open>
  \<open>user.emails.find((e) => e.value === email)\<close>: reading \<open>.value\<close> of \<open>null\<close>
  throws; only an object has a \<open>value\<close>.
\<close>

fun find_email :: "string \<Rightarrow> jv list \<Rightarrow> error + jv option" where
  "find_email email [] = Inr None"
| "find_email email (e # es) =
     (case e of
        JNull \<Rightarrow> Inl TypeError
      | JObj ob \<Rightarrow>
          if field ''value'' ob = Some (JStr email) then Inr (Some e)
          else find_email email es
      | _ \<Rightarrow> find_email email es)"

text \<open>
  \<open>user.emails.indexOf(userEmail)\<close>: the first position of the element, \<open>-1\<close> when
  it is not there, as for \<open>undefined\<close>. \<open>find\<close> gave the first element with that
  address, so its position is the first position of an element equal to it.
\<close>

fun index_from :: "nat \<Rightarrow> jv \<Rightarrow> jv list \<Rightarrow> int" where
  "index_from i x [] = - 1"
| "index_from i x (e # es) = (if e = x then int i else index_from (Suc i) x es)"

definition indexOf :: "jv list \<Rightarrow> jv option \<Rightarrow> int" where
  "indexOf es x = (case x of None \<Rightarrow> - 1 | Some y \<Rightarrow> index_from 0 y es)"

definition props_of :: "jv option \<Rightarrow> obj" where
  "props_of v = (case v of Some (JObj ob) \<Rightarrow> ob | _ \<Rightarrow> [])"

definition assertUserEmailData_run ::
  "string \<Rightarrow> string \<Rightarrow> obj option \<Rightarrow> 'w driver \<Rightarrow> world \<Rightarrow> jv option result" where
  "assertUserEmailData_run userId email data d w =
     (case findOne (users d) (Field ''_id'' (JStr userId)) w of
        (Inl e, w1) \<Rightarrow> (Inl e, w1)
      | (Inr user, w1) \<Rightarrow>
          (case (case user of Some (JObj u) \<Rightarrow> field ''emails'' u | _ \<Rightarrow> None) of
             Some (JArr es) \<Rightarrow>
               (case find_email email es of
                  Inl e \<Rightarrow> (Inl e, w1)
                | Inr userEmail \<Rightarrow>
                    (case (if userEmail = None then
                             updateOne (users d) (Field ''_id'' (JStr userId))
                               \<lparr> u_set = [], u_unset = [],
                                 u_currentDate = [''dateUpdated''],
                                 u_push = [(''emails'',
                                            JObj (spread_opt [(''value'', JStr email)] data))] \<rparr>
                               w1
                           else (Inr (), w1)) of
                       (Inl e, w2) \<Rightarrow> (Inl e, w2)
                     | (Inr _, w2) \<Rightarrow>
                         (if data \<noteq> None then
                            (let idx = indexOf es userEmail;
                                 emailData = spread_opt (props_of userEmail) data
                             in case updateOne (users d) (Field ''_id'' (JStr userId))
                                     \<lparr> u_set = [(''emails.'' @ show_int idx, JObj emailData)],
                                       u_unset = [],
                                       u_currentDate = [''dateUpdated''],
                                       u_push = [] \<rparr> w2 of
                                  (Inl e, w3) \<Rightarrow> (Inl e, w3)
                                | (Inr _, w3) \<Rightarrow> (Inr None, w3))
                          else (Inr None, w2))))
           | _ \<Rightarrow> (Inl TypeError, w1)))"

definition assertUserServiceData_run ::
  "string \<Rightarrow> string \<Rightarrow> obj \<Rightarrow> 'w driver \<Rightarrow> world \<Rightarrow> jv option result" where
  "assertUserServiceData_run userId service data d w =
     (case updateOne (users d) (Field ''_id'' (JStr userId))
             \<lparr> u_set = [(''services'', JObj [(service, JObj (spread [] data))])],
               u_unset = [], u_currentDate = [''dateUpdated''], u_push = [] \<rparr> w of
        (Inl e, w1) \<Rightarrow> (Inl e, w1)
      | (Inr _, w1) \<Rightarrow> (Inr None, w1))"

subsection \<open>The public operations\<close>

text \<open>
  A call that finds the gate closed leaves its \<open>resolve\<close> in \<open>readySubs\<close> and is
  \<open>Pending\<close>; \<open>run\<close> is what it goes on to do when the callback is called. A
  call that finds it open goes on at once.
\<close>

datatype call =
    FetchConfig
  | SetConfigKey string string obj
  | CreateUser obj
  | UpdateUser string obj
  | FetchUserById string
  | FetchUserByEmail jv
  | FetchUserByServiceIdOrEmail string jv jv
  | VerifyUserAccount string "string option" "string option" "string option"
  | AssertUserEmailData string string "obj option"
  | AssertUserServiceData string string obj

datatype outcome = Pending | Returned "jv option" | Threw error

fun run :: "call \<Rightarrow> call driver \<Rightarrow> world \<Rightarrow> jv option result" where
  "run FetchConfig = fetchConfig_run"
| "run (SetConfigKey type id' val) = setConfigKey_run type id' val"
| "run (CreateUser user) = createUser_run user"
| "run (UpdateUser userId updatedUser) = updateUser_run userId updatedUser"
| "run (FetchUserById userId) = fetchUserById_run userId"
| "run (FetchUserByEmail email) = fetchUserByEmail_run email"
| "run (FetchUserByServiceIdOrEmail service id' email) =
     fetchUserByServiceIdOrEmail_run service id' email"
| "run (VerifyUserAccount userId vf tf tef) = verifyUserAccount_run userId vf tf tef"
| "run (AssertUserEmailData userId email data) = assertUserEmailData_run userId email data"
| "run (AssertUserServiceData userId service data) =
     assertUserServiceData_run userId service data"

definition settle :: "call driver \<Rightarrow> jv option result \<Rightarrow> outcome \<times> call driver \<times> world" where
  "settle d r = (case r of (Inl e, w) \<Rightarrow> (Threw e, d, w) | (Inr v, w) \<Rightarrow> (Returned v, d, w))"

text \<open>\<open>await this._ready()\<close>, then the rest of the call.\<close>

definition gated :: "call \<Rightarrow> call driver \<times> world \<Rightarrow> outcome \<times> call driver \<times> world" where
  "gated c dw =
     (case dw of (d, w) \<Rightarrow>
        (case ready c d of
           (True, d1) \<Rightarrow> settle d1 (run c d1 w)
         | (False, d1) \<Rightarrow> (Pending, d1, w)))"

definition fetchConfig :: "call driver \<times> world \<Rightarrow> outcome \<times> call driver \<times> world" where
  "fetchConfig = gated FetchConfig"

definition setConfigKey ::
  "string \<Rightarrow> string \<Rightarrow> obj \<Rightarrow> call driver \<times> world \<Rightarrow> outcome \<times> call driver \<times> world" where
  "setConfigKey type id' val = gated (SetConfigKey type id' val)"

definition createUser ::
  "obj \<Rightarrow> call driver \<times> world \<Rightarrow> outcome \<times> call driver \<times> world" where
  "createUser user = gated (CreateUser user)"

definition updateUser ::
  "string \<Rightarrow> obj \<Rightarrow> call driver \<times> world \<Rightarrow> outcome \<times> call driver \<times> world" where
  "updateUser userId updatedUser = gated (UpdateUser userId updatedUser)"

definition fetchUserById ::
  "string \<Rightarrow> call driver \<times> world \<Rightarrow> outcome \<times> call driver \<times> world" where
  "fetchUserById userId = gated (FetchUserById userId)"



definition verifyUserAccount ::
  "string \<Rightarrow> string option \<Rightarrow> string option \<Rightarrow> string option \<Rightarrow>
   call driver \<times> world \<Rightarrow> outcome \<times> call driver \<times> world" where
  "verifyUserAccount userId verifiedField tokenField tokenExpirationField =
     gated (VerifyUserAccount userId verifiedField tokenField tokenExpirationField)"

text \<open>\<open>addResetPasswordToken\<close> has no \<open>await this._ready()\<close>: it goes on at once.\<close>

definition addResetPasswordToken ::
  "string \<Rightarrow> jv \<Rightarrow> jv \<Rightarrow> string option \<Rightarrow> string option \<Rightarrow>
   call driver \<times> world \<Rightarrow> outcome \<times> call driver \<times> world" where
  "addResetPasswordToken userId token tokenExpiration tokenField tokenExpirationField dw =
     (case dw of (d, w) \<Rightarrow>
        settle d (addResetPasswordToken_run userId token tokenExpiration
                    tokenField tokenExpirationField d w))"

definition assertUserEmailData ::
  "string \<Rightarrow> string \<Rightarrow> obj option \<Rightarrow> call driver \<times> world \<Rightarrow> outcome \<times> call driver \<times> world" where
  "assertUserEmailData userId email data = gated (AssertUserEmailData userId email data)"

definition assertUserServiceData ::
  "string \<Rightarrow> string \<Rightarrow> obj \<Rightarrow> call driver \<times> world \<Rightarrow> outcome \<times> call driver \<times> world" where
  "assertUserServiceData userId service data = gated (AssertUserServiceData userId service data)"

section \<open>The user records of the specification\<close>

text \<open>
  The specification's data model of a stored user, as far as the lookups depend on it:
  \<open>emails\<close>, when there, is a sequence of objects; \<open>services\<close>, when there, maps
  a service name to an object; and no \<open>_id\<close>, no \<open>value\<close> of an email and no
  \<open>id\<close> of a service is itself an array (the store compares an array by its
  elements).
\<close>

definition scalar :: "jv option \<Rightarrow> bool" where
  "scalar v = (case v of Some (JArr xs) \<Rightarrow> False | _ \<Rightarrow> True)"

definition email_record :: "jv \<Rightarrow> bool" where
  "email_record e = (case e of JObj ob \<Rightarrow> scalar (field ''value'' ob) | _ \<Rightarrow> False)"

definition service_record :: "jv \<Rightarrow> bool" where
  "service_record v = (case v of JObj ob \<Rightarrow> scalar (field ''id'' ob) | _ \<Rightarrow> False)"

definition user_record :: "obj \<Rightarrow> bool" where
  "user_record u =
     (scalar (field ''_id'' u)
      \<and> (case field ''emails'' u of
            None \<Rightarrow> True
          | Some (JArr es) \<Rightarrow> list_all email_record es
          | _ \<Rightarrow> False)
      \<and> (case field ''services'' u of
            None \<Rightarrow> True
          | Some (JObj sv) \<Rightarrow> list_all (\<lambda>p. service_record (snd p)) sv
          | _ \<Rightarrow> False))"

text \<open>
  The two conditions of \<open>fetchUserByServiceIdOrEmail\<close> in the specification's words:
  some entry of the user's \<open>emails\<close> has \<open>value == email\<close>, and
  \<open>services[service].id == serviceId\<close>.
\<close>

definition has_email :: "string \<Rightarrow> obj \<Rightarrow> bool" where
  "has_email email u =
     (case field ''emails'' u of
        Some (JArr es) \<Rightarrow>
          list_ex (\<lambda>e. case e of
                         JObj ob \<Rightarrow> field ''value'' ob = Some (JStr email)
                       | _ \<Rightarrow> False) es
      | _ \<Rightarrow> False)"


text \<open>
  A configuration entry that \<open>fetchConfig\<close> files in \<open>out\<close>: its \<open>type\<close> and its
  \<open>_id\<close> convert to property names, and the name of the type is not one that every
  object inherits.
\<close>

definition files_plainly :: "(nat \<Rightarrow> string) \<Rightarrow> (int \<Rightarrow> string) \<Rightarrow> obj \<Rightarrow> bool" where
  "files_plainly ds ns row =
     ((case key_of ds ns [] (field ''type'' row) of
         Inl e \<Rightarrow> False
       | Inr t \<Rightarrow> t \<notin> set inherited_names)
      \<and> (case key_of ds ns [] (field ''_id'' row) of Inl e \<Rightarrow> False | Inr i \<Rightarrow> True))"

section \<open>A database to run on\<close>

text \<open>
  The two users of the driver's tests and one who has not verified her address yet, in
  a store whose clock reads 1000.
\<close>

definition sheppard :: obj where
  "sheppard =
     [(''_id'', JStr ''sheppard''),
      (''emails'', JArr [JObj [(''value'', JStr ''sheppard@atlantis.net'')]]),
      (''services'', JObj [(''facebook'', JObj [(''id'', JStr ''1'')])])]"

definition mckay :: obj where
  "mckay =
     [(''_id'', JStr ''mckay''),
      (''emails'', JArr [JObj [(''value'', JStr ''mckay@atlantis.net'')]])]"

definition teyla :: obj where
  "teyla =
     [(''_id'', JStr ''teyla''),
      (''emails'', JArr [JObj [(''value'', JStr ''teyla@athos.org''), (''type'', JStr ''home'')]]),
      (''verified'', JBool False),
      (''verificationToken'', JStr ''vt''),
      (''verificationTokenExpiration'', JDate 9000),
      (''dateUpdated'', JDate 500)]"

definition atlantis :: world where
  "atlantis =
     \<lparr> colls = (\<lambda>n. if n = ''users'' then [sheppard, mckay, teyla] else []),
       oplog = [],
       server_clock = 1000,
       client_clock = 1000,
       oid_supply = (\<lambda>k. ''oid'' @ show_nat k),
       oids_made = 0,
       resolvable = (\<lambda>n. True),
       date_string = show_nat,
       number_string = show_int \<rparr>"

definition plain :: options where
  "plain = \<lparr> opt_userTableName = None, opt_configTableName = None,
             opt_dbName = None, opt_init = None \<rparr>"

text \<open>
  A driver constructed with no options, one with \<open>init: false\<close>, and the driver of the test of
  \<open>ready()\<close>, which constructs one and then sets \<open>initted\<close> back to \<open>false\<close>.
\<close>

definition awake :: "call driver" where
  "awake = constructor plain atlantis"

definition asleep :: "call driver" where
  "asleep = constructor (plain\<lparr>opt_init := Some False\<rparr>) atlantis"

definition reopened :: "call driver" where
  "reopened = (constructor plain atlantis)\<lparr>initted := False\<rparr>"




text \<open>The store with one configuration entry, as the test of \<open>setConfigKey\<close> leaves it.\<close>

definition configured :: world where
  "configured =
     atlantis\<lparr>colls := (colls atlantis)
       (''apolloPassportConfig'' :=
          [[(''type'', JStr ''test''), (''_id'', JStr ''test1''), (''a'', JNum 1)]])\<rparr>"

text \<open>The store after \<open>verifyUserAccount('teyla')\<close>, its clock still reading 1000.\<close>

definition just_verified :: world where
  "just_verified = snd (snd (verifyUserAccount ''teyla'' None None None (awake, atlantis)))"

text \<open>One \<open>_ready()\<close> after the other, for the waiters \<open>xs\<close>.\<close>

fun ready_all :: "'w list \<Rightarrow> 'w driver \<Rightarrow> 'w driver" where
  "ready_all [] d = d"
| "ready_all (x # xs) d = ready_all xs (snd (ready x d))"

section \<open>Properties\<close>

subsection \<open>Objects, paths and numerals\<close>

lemma field_assign_same: "field k (assign k v ob) = Some v"
  by (induction ob) (auto simp: field_def)

lemma field_assign_other: "k' \<noteq> k \<Longrightarrow> field k' (assign k v ob) = field k' ob"
  by (induction ob) (auto simp: field_def)

lemma field_remove_same: "field k (remove k ob) = None"
  by (induction ob) (auto simp: field_def)

lemma field_remove_other: "k' \<noteq> k \<Longrightarrow> field k' (remove k ob) = field k' ob"
  by (induction ob) (auto simp: field_def)

lemma field_spread_other: "field k b = None \<Longrightarrow> field k (spread a b) = field k a"
proof (induction b arbitrary: a)
  case Nil
  then show ?case by simp
next
  case (Cons p b)
  obtain k' v' where p: "p = (k', v')" by (cases p)
  from Cons.prems p have ne: "k' \<noteq> k" and rest: "field k b = None"
    by (auto simp: field_def split: if_splits)
  show ?case using Cons.IH [OF rest, of "assign k' v' a"] ne p
    by (simp add: field_assign_other)
qed

lemma split_path_nonempty: "split_path s \<noteq> []"
  by (induction s) (auto split: list.splits)

lemma split_path_plain: "CHR ''.'' \<notin> set s \<Longrightarrow> split_path s = [s]"
  by (induction s) auto

lemma split_path_dot:
  "CHR ''.'' \<notin> set a \<Longrightarrow> split_path (a @ CHR ''.'' # b) = a # split_path b"
  by (induction a) auto

lemma digit_cases:
  "(d::nat) < 10 \<Longrightarrow>
   d = 0 \<or> d = 1 \<or> d = 2 \<or> d = 3 \<or> d = 4 \<or> d = 5 \<or> d = 6 \<or> d = 7 \<or> d = 8 \<or> d = 9"
  by arith

lemma digit_of_char: "d < 10 \<Longrightarrow> digit_of (digit_char d) = Some d"
  by (drule digit_cases) (auto simp: digit_of_def digit_char_def)

lemma digit_char_not_dot: "d < 10 \<Longrightarrow> digit_char d \<noteq> CHR ''.''"
  by (drule digit_cases) (auto simp: digit_char_def)

lemma digits_val_append:
  "digits_val acc (xs @ ys) =
     (case digits_val acc xs of None \<Rightarrow> None | Some a \<Rightarrow> digits_val a ys)"
  by (induction xs arbitrary: acc) (auto split: option.splits)

lemma digits_val_show_nat: "digits_val 0 (show_nat n) = Some n"
proof (induction n rule: show_nat.induct)
  case (1 n)
  show ?case
  proof (cases "n < 10")
    case True
    then show ?thesis by (subst show_nat.simps) (simp add: digit_of_char)
  next
    case False
    have m: "n mod 10 < 10" by simp
    from False "1.IH" have ih: "digits_val 0 (show_nat (n div 10)) = Some (n div 10)"
      by simp
    show ?thesis using False
      by (subst show_nat.simps) (simp add: digits_val_append ih digit_of_char [OF m])
  qed
qed

lemma show_nat_nonempty: "show_nat n \<noteq> []"
  by (subst show_nat.simps) simp

lemma show_nat_no_dot: "CHR ''.'' \<notin> set (show_nat n)"
proof (induction n rule: show_nat.induct)
  case (1 n)
  show ?case
  proof (cases "n < 10")
    case True
    then show ?thesis using digit_char_not_dot [of n] by (subst show_nat.simps) auto
  next
    case False
    have m: "n mod 10 < 10" by simp
    from False "1.IH" have ih: "CHR ''.'' \<notin> set (show_nat (n div 10))" by simp
    show ?thesis using False ih digit_char_not_dot [OF m]
      by (subst show_nat.simps) auto
  qed
qed

lemma parse_index_show_nat: "parse_index (show_nat n) = Some n"
  by (simp add: parse_index_def show_nat_nonempty digits_val_show_nat)

subsection \<open>The readiness gate\<close>

lemma release_all: "release subs called = ([], called @ subs)"
  by (induction subs arbitrary: called) auto

lemma ready_all_queue:
  "\<not> initted d \<Longrightarrow> ready_all xs d = d\<lparr>readySubs := readySubs d @ xs\<rparr>"
  by (induction xs arbitrary: d) (auto simp: ready_def)

lemma init_completes:
  assumes "resolvable w (userTableName d)" and "resolvable w (configTableName d)"
  shows "init d w =
    (Inr (readySubs d),
     d\<lparr>users := Some (userTableName d), config := Some (configTableName d),
       initted := True, readySubs := []\<rparr>)"
  using assms by (simp add: init_def collection_def release_all)

lemma asleep_eq:
  "asleep = \<lparr>userTableName = ''users'', configTableName = ''apolloPassportConfig'',
     dbName = None, readySubs = [], initted = False, users = None, config = None\<rparr>"
  by (simp add: asleep_def constructor_def plain_def or_default_def)

lemma reopened_eq:
  "reopened = \<lparr>userTableName = ''users'', configTableName = ''apolloPassportConfig'',
     dbName = None, readySubs = [], initted = False, users = Some ''users'',
     config = Some ''apolloPassportConfig''\<rparr>"
  by (simp add: reopened_def constructor_def plain_def init_def collection_def atlantis_def
      or_default_def)

text \<open>
  C9. Waiters that call \<open>_ready()\<close> before \<open>_init\<close> has run are queued; when
  \<open>_init\<close> runs (the collections resolve) it calls every queued callback, the ones
  queued first first, and leaves the queue empty; after that every \<open>_ready()\<close>
  resolves at once and queues nothing.
\<close>

theorem gate_releases_fifo:
  assumes "\<not> initted d"
    and "resolvable w (userTableName d)"
    and "resolvable w (configTableName d)"
  shows "\<exists>d'. init (ready_all xs d) w = (Inr (readySubs d @ xs), d')
           \<and> readySubs d' = [] \<and> initted d' \<and> (\<forall>y. ready y d' = (True, d'))"
proof -
  let ?q = "ready_all xs d"
  have q: "?q = d\<lparr>readySubs := readySubs d @ xs\<rparr>"
    using assms(1) by (rule ready_all_queue)
  have "init ?q w =
    (Inr (readySubs ?q),
     ?q\<lparr>users := Some (userTableName ?q), config := Some (configTableName ?q),
        initted := True, readySubs := []\<rparr>)"
    using assms(2,3) by (intro init_completes) (simp_all add: q)
  then show ?thesis by (simp add: q ready_def)
qed

theorem gate_releases_fifo_witness:
  "\<not> initted asleep
   \<and> resolvable atlantis (userTableName asleep)
   \<and> resolvable atlantis (configTableName asleep)
   \<and> (\<exists>d'. init (ready_all [FetchConfig, FetchUserById ''mckay''] asleep) atlantis
              = (Inr [FetchConfig, FetchUserById ''mckay''], d')
            \<and> readySubs d' = [] \<and> initted d' \<and> (\<forall>y. ready y d' = (True, d')))"
  using gate_releases_fifo [of asleep atlantis "[FetchConfig, FetchUserById ''mckay'']"]
  by (simp add: asleep_eq atlantis_def)

text \<open>Every operation that awaits the gate waits while it is closed, and asks the store nothing.\<close>

lemma gated_waits:
  "\<not> initted d \<Longrightarrow> gated c (d, w) = (Pending, d\<lparr>readySubs := readySubs d @ [c]\<rparr>, w)"
  by (simp add: gated_def ready_def)

text \<open>
  C3. \<open>addResetPasswordToken\<close> does not await the gate. On a driver constructed with
  \<open>init: false\<close>, \<open>fetchUserById\<close> waits, and \<open>addResetPasswordToken\<close> throws a
  TypeError on the collection handle that is not there yet. On a driver whose handles
  are resolved and whose gate is closed, it sends its update to the store and queues
  nothing.
\<close>

theorem addResetPasswordToken_skips_gate:
  "fetchUserById ''mckay'' (asleep, atlantis)
     = (Pending, asleep\<lparr>readySubs := [FetchUserById ''mckay'']\<rparr>, atlantis)
   \<and> addResetPasswordToken ''mckay'' (JStr ''tok'') (JDate 5000) None None (asleep, atlantis)
     = (Threw TypeError, asleep, atlantis)
   \<and> \<not> initted reopened
   \<and> fst (addResetPasswordToken ''mckay'' (JStr ''tok'') (JDate 5000) None None
            (reopened, atlantis)) = Returned None
   \<and> fst (snd (addResetPasswordToken ''mckay'' (JStr ''tok'') (JDate 5000) None None
                 (reopened, atlantis))) = reopened
   \<and> oplog (snd (snd (addResetPasswordToken ''mckay'' (JStr ''tok'') (JDate 5000) None None
                        (reopened, atlantis)))) = [(''users'', UpdateOne)]
   \<and> map (field ''resetPassToken'')
         (colls (snd (snd (addResetPasswordToken ''mckay'' (JStr ''tok'') (JDate 5000)
                             None None (reopened, atlantis)))) ''users'')
       = [None, Some (JStr ''tok''), None]"
proof -
  have q: "fetchUserById ''mckay'' (asleep, atlantis)
     = (Pending, asleep\<lparr>readySubs := [FetchUserById ''mckay'']\<rparr>, atlantis)"
    by (simp add: fetchUserById_def gated_waits asleep_eq)
  have t: "addResetPasswordToken ''mckay'' (JStr ''tok'') (JDate 5000) None None
             (asleep, atlantis) = (Threw TypeError, asleep, atlantis)"
    by (simp add: addResetPasswordToken_def addResetPasswordToken_run_def settle_def
        updateOne_def asleep_eq)
  have c: "\<not> initted reopened"
    by (simp add: reopened_eq)
  have r: "addResetPasswordToken ''mckay'' (JStr ''tok'') (JDate 5000) None None
             (reopened, atlantis)
     = (Returned None, reopened,
        atlantis\<lparr>colls := (colls atlantis)
                    (''users'' :=
                       [sheppard,
                        [(''_id'', JStr ''mckay''),
                         (''emails'', JArr [JObj [(''value'', JStr ''mckay@atlantis.net'')]]),
                         (''resetPassToken'', JStr ''tok''),
                         (''resetPassTokenExpiration'', JDate 5000),
                         (''dateUpdated'', JDate 1000)],
                        teyla]),
                 oplog := [(''users'', UpdateOne)]\<rparr>)"
    by (simp add: reopened_eq addResetPasswordToken_def addResetPasswordToken_run_def
        settle_def updateOne_def atlantis_def apply_update_def update_paths_def set_path_def
        unset_path_def clash_def log_request_def sheppard_def mckay_def field_def
        value_matches_def step_def field_of_def)
  show ?thesis
    unfolding r using q t c by (simp add: sheppard_def teyla_def field_def)
qed

subsection \<open>Updates of one user\<close>

lemma concat_reach_nil: "concat (map (reach []) xs) = xs"
  by (induction xs) auto

lemma reach_last: "reach [k] v = step k v"
  by (simp add: concat_reach_nil)

lemma reach_single: "reach [k] (JObj u) = (case field k u of None \<Rightarrow> [] | Some v \<Rightarrow> [v])"
  by (simp add: concat_reach_nil step_def field_of_def split: option.splits)

lemma matches_top_field:
  "CHR ''.'' \<notin> set k \<Longrightarrow>
   matches (Field k q) u =
     (case field k u of None \<Rightarrow> q = JNull | Some v \<Rightarrow> value_matches q v)"
  by (simp add: split_path_plain reach_single del: reach.simps split: option.splits)

lemma matches_id_cong:
  "field ''_id'' u' = field ''_id'' u \<Longrightarrow>
   matches (Field ''_id'' q) u' = matches (Field ''_id'' q) u"
  by (simp add: matches_top_field del: matches.simps)

lemma update_first_found:
  "find_one f c = Some u \<Longrightarrow> apply_update now upd u = Inr u' \<Longrightarrow> matches f u' \<Longrightarrow>
   \<exists>c'. update_first f now upd c = Inr c' \<and> find_one f c' = Some u'"
proof (induction c)
  case Nil
  then show ?case by (simp add: find_one_def)
next
  case (Cons d c)
  show ?case
  proof (cases "matches f d")
    case True
    with Cons.prems have "u = d" by (simp add: find_one_def)
    with True Cons.prems show ?thesis by (simp add: find_one_def)
  next
    case False
    with Cons.prems have "find_one f c = Some u" by (simp add: find_one_def)
    from Cons.IH [OF this Cons.prems(2,3)] obtain c' where
      "update_first f now upd c = Inr c'" and "find_one f c' = Some u'" by blast
    with False show ?thesis by (simp add: find_one_def)
  qed
qed

lemma updateOne_found:
  assumes "find_one f (colls w n) = Some u"
    and "apply_update (server_clock w) upd u = Inr u'"
    and "matches f u'"
  shows "\<exists>w'. updateOne (Some n) f upd w = (Inr (), w')
           \<and> find_one f (colls w' n) = Some u'
           \<and> oplog w' = oplog w @ [(n, UpdateOne)]
           \<and> server_clock w' = server_clock w"
proof -
  from update_first_found [OF assms] obtain c' where
    c: "update_first f (server_clock w) upd (colls w n) = Inr c'" "find_one f c' = Some u'"
    by blast
  then show ?thesis by (simp add: updateOne_def log_request_def)
qed

lemma set_path_top: "CHR ''.'' \<notin> set k \<Longrightarrow> set_path k v d = Inr (assign k v d)"
  by (simp add: set_path_def split_path_plain)

lemma unset_path_top:
  "CHR ''.'' \<notin> set k \<Longrightarrow> unset_path k d = (if field k d = None then d else remove k d)"
  by (auto simp: unset_path_def split_path_plain split: option.splits)

lemma field_unset_same: "CHR ''.'' \<notin> set k \<Longrightarrow> field k (unset_path k d) = None"
  by (simp add: unset_path_top field_remove_same)

lemma field_unset_other:
  "CHR ''.'' \<notin> set k \<Longrightarrow> k' \<noteq> k \<Longrightarrow> field k' (unset_path k d) = field k' d"
  by (simp add: unset_path_top field_remove_other)

lemma fetchUserById_open:
  "initted d \<Longrightarrow> users d = Some n \<Longrightarrow>
   fetchUserById userId (d, w) =
     (Returned (Some (case find_one (Field ''_id'' (JStr userId)) (colls w n) of
                        None \<Rightarrow> JNull | Some u \<Rightarrow> JObj u)),
      d, log_request n FindOne w)"
  by (simp add: fetchUserById_def gated_def ready_def fetchUserById_run_def findOne_def
      settle_def split: option.splits)

lemma fetched_user:
  "initted d \<Longrightarrow> users d = Some n \<Longrightarrow>
   (fst (fetchUserById userId (d, w)) = Returned (Some (JObj u)))
     = (find_one (Field ''_id'' (JStr userId)) (colls w n) = Some u)"
  by (simp add: fetchUserById_open split: option.splits)

lemma apply_update_reset:
  "apply_update now
     \<lparr> u_set = assign ''resetPassTokenExpiration'' tokenExpiration
                 (assign ''resetPassToken'' token []),
       u_unset = [''verificationToken'', ''tokenExpirationField''],
       u_currentDate = [''dateUpdated''],
       u_push = [] \<rparr> u
   = Inr (assign ''dateUpdated'' (JDate now)
           (unset_path ''tokenExpirationField''
             (unset_path ''verificationToken''
               (assign ''resetPassTokenExpiration'' tokenExpiration
                 (assign ''resetPassToken'' token u)))))"
  by (simp add: apply_update_def update_paths_def clash_def set_path_top)

lemma apply_update_verify:
  "apply_update now
     \<lparr> u_set = [(''verified'', JBool True)],
       u_unset = map fst (assign ''verificationTokenExpiration'' (JStr [])
                           (assign ''verificationToken'' (JStr []) [])),
       u_currentDate = [''dateUpdated''],
       u_push = [] \<rparr> u
   = Inr (assign ''dateUpdated'' (JDate now)
           (unset_path ''verificationTokenExpiration''
             (unset_path ''verificationToken''
               (assign ''verified'' (JBool True) u))))"
  by (simp add: apply_update_def update_paths_def clash_def set_path_top)

lemma awake_eq:
  "awake = \<lparr>userTableName = ''users'', configTableName = ''apolloPassportConfig'',
     dbName = None, readySubs = [], initted = True, users = Some ''users'',
     config = Some ''apolloPassportConfig''\<rparr>"
  by (simp add: awake_def constructor_def plain_def init_def collection_def atlantis_def
      or_default_def)

lemma find_one_matches: "find_one f c = Some u \<Longrightarrow> matches f u"
  by (auto simp: find_one_def find_Some_iff)

lemma addResetPasswordToken_on_user:
  assumes "users d = Some n"
    and "find_one (Field ''_id'' (JStr userId)) (colls w n) = Some u"
  shows "\<exists>w'. addResetPasswordToken userId token tokenExpiration None None (d, w)
                = (Returned None, d, w')
           \<and> find_one (Field ''_id'' (JStr userId)) (colls w' n)
               = Some (assign ''dateUpdated'' (JDate (server_clock w))
                        (unset_path ''tokenExpirationField''
                          (unset_path ''verificationToken''
                            (assign ''resetPassTokenExpiration'' tokenExpiration
                              (assign ''resetPassToken'' token u)))))
           \<and> oplog w' = oplog w @ [(n, UpdateOne)]"
proof -
  let ?f = "Field ''_id'' (JStr userId)"
  let ?u' = "assign ''dateUpdated'' (JDate (server_clock w))
               (unset_path ''tokenExpirationField''
                 (unset_path ''verificationToken''
                   (assign ''resetPassTokenExpiration'' tokenExpiration
                     (assign ''resetPassToken'' token u))))"
  have "field ''_id'' ?u' = field ''_id'' u"
    by (simp add: field_assign_other field_unset_other)
  from matches_id_cong [OF this, of "JStr userId"] have m: "matches ?f ?u'"
    using find_one_matches [OF assms(2)] by (simp del: matches.simps)
  from updateOne_found [OF assms(2) apply_update_reset m]
  obtain w' where
    "updateOne (Some n) ?f
       \<lparr> u_set = assign ''resetPassTokenExpiration'' tokenExpiration
                   (assign ''resetPassToken'' token []),
         u_unset = [''verificationToken'', ''tokenExpirationField''],
         u_currentDate = [''dateUpdated''],
         u_push = [] \<rparr> w = (Inr (), w')"
    and "find_one ?f (colls w' n) = Some ?u'"
    and "oplog w' = oplog w @ [(n, UpdateOne)]"
    by blast
  then show ?thesis
    using assms(1)
    by (simp add: addResetPasswordToken_def addResetPasswordToken_run_def settle_def)
qed

lemma teyla_fetched:
  "fst (fetchUserById ''teyla'' (awake, atlantis)) = Returned (Some (JObj teyla))"
  by (simp add: fetchUserById_open awake_eq atlantis_def find_one_def sheppard_def
      mckay_def teyla_def field_def step_def field_of_def value_matches_def)

text \<open>
  C10. With the default field names, \<open>addResetPasswordToken\<close> leaves the user's
  \<open>verificationTokenExpiration\<close> as it was: what its \<open>$unset\<close> names is the
  field \<open>tokenExpirationField\<close>, which the user does not have afterwards.
\<close>

theorem reset_keeps_verification_expiration:
  assumes "initted d" and "users d = Some n"
    and "fst (fetchUserById userId (d, w)) = Returned (Some (JObj u))"
  shows "\<exists>w' u'. addResetPasswordToken userId token tokenExpiration None None (d, w)
                   = (Returned None, d, w')
           \<and> fst (fetchUserById userId (d, w')) = Returned (Some (JObj u'))
           \<and> field ''verificationTokenExpiration'' u' = field ''verificationTokenExpiration'' u
           \<and> field ''tokenExpirationField'' u' = None"
proof -
  from assms have f: "find_one (Field ''_id'' (JStr userId)) (colls w n) = Some u"
    by (simp add: fetched_user)
  from addResetPasswordToken_on_user [OF assms(2) f, of token tokenExpiration]
  obtain w' where
    w': "addResetPasswordToken userId token tokenExpiration None None (d, w)
           = (Returned None, d, w')"
      "find_one (Field ''_id'' (JStr userId)) (colls w' n)
           = Some (assign ''dateUpdated'' (JDate (server_clock w))
                    (unset_path ''tokenExpirationField''
                      (unset_path ''verificationToken''
                        (assign ''resetPassTokenExpiration'' tokenExpiration
                          (assign ''resetPassToken'' token u)))))"
    by blast
  show ?thesis
    apply (rule exI [of _ w'])
    apply (rule exI [of _ "assign ''dateUpdated'' (JDate (server_clock w))
                    (unset_path ''tokenExpirationField''
                      (unset_path ''verificationToken''
                        (assign ''resetPassTokenExpiration'' tokenExpiration
                          (assign ''resetPassToken'' token u))))"])
    using w' assms(1,2)
    by (simp add: fetched_user field_assign_other field_unset_other field_unset_same)
qed

theorem reset_keeps_verification_expiration_witness:
  "initted awake \<and> users awake = Some ''users''
   \<and> fst (fetchUserById ''teyla'' (awake, atlantis)) = Returned (Some (JObj teyla))
   \<and> (\<exists>w' u'. addResetPasswordToken ''teyla'' (JStr ''tok'') (JDate 5000) None None
                  (awake, atlantis) = (Returned None, awake, w')
           \<and> fst (fetchUserById ''teyla'' (awake, w')) = Returned (Some (JObj u'))
           \<and> field ''verificationTokenExpiration'' u'
               = field ''verificationTokenExpiration'' teyla
           \<and> field ''tokenExpirationField'' u' = None)"
proof -
  have a: "initted awake" and b: "users awake = Some ''users''"
    by (simp_all add: awake_eq)
  show ?thesis
    using reset_keeps_verification_expiration
      [OF a b teyla_fetched, of "JStr ''tok''" "JDate 5000"] a b teyla_fetched
    by simp
qed

text \<open>
  C8, amended. With the default field names, \<open>addResetPasswordToken\<close> sets
  \<open>resetPassToken\<close> and \<open>resetPassTokenExpiration\<close> of an existing user to the
  values given, removes \<open>verificationToken\<close>, and sets \<open>dateUpdated\<close> to the
  time the store's clock reads.
\<close>

theorem reset_sets_token_and_date:
  assumes "initted d" and "users d = Some n"
    and "fst (fetchUserById userId (d, w)) = Returned (Some (JObj u))"
  shows "\<exists>w' u'. addResetPasswordToken userId token tokenExpiration None None (d, w)
                   = (Returned None, d, w')
           \<and> fst (fetchUserById userId (d, w')) = Returned (Some (JObj u'))
           \<and> field ''resetPassToken'' u' = Some token
           \<and> field ''resetPassTokenExpiration'' u' = Some tokenExpiration
           \<and> field ''dateUpdated'' u' = Some (JDate (server_clock w))
           \<and> field ''verificationToken'' u' = None"
proof -
  from assms have f: "find_one (Field ''_id'' (JStr userId)) (colls w n) = Some u"
    by (simp add: fetched_user)
  let ?u' = "assign ''dateUpdated'' (JDate (server_clock w))
               (unset_path ''tokenExpirationField''
                 (unset_path ''verificationToken''
                   (assign ''resetPassTokenExpiration'' tokenExpiration
                     (assign ''resetPassToken'' token u))))"
  from addResetPasswordToken_on_user [OF assms(2) f, of token tokenExpiration]
  obtain w' where
    w': "addResetPasswordToken userId token tokenExpiration None None (d, w)
           = (Returned None, d, w')"
      "find_one (Field ''_id'' (JStr userId)) (colls w' n) = Some ?u'"
    by blast
  have "fst (fetchUserById userId (d, w')) = Returned (Some (JObj ?u'))"
    using w'(2) assms(1,2) by (simp add: fetched_user)
  moreover have "field ''resetPassToken'' ?u' = Some token"
    by (simp add: field_assign_other field_unset_other field_assign_same)
  moreover have "field ''resetPassTokenExpiration'' ?u' = Some tokenExpiration"
    by (simp add: field_assign_other field_unset_other field_assign_same)
  moreover have "field ''dateUpdated'' ?u' = Some (JDate (server_clock w))"
    by (simp add: field_assign_same)
  moreover have "field ''verificationToken'' ?u' = None"
    by (simp add: field_assign_other field_unset_other field_unset_same)
  ultimately show ?thesis using w'(1) by blast
qed

theorem reset_sets_token_and_date_witness:
  "initted awake \<and> users awake = Some ''users''
   \<and> fst (fetchUserById ''teyla'' (awake, atlantis)) = Returned (Some (JObj teyla))
   \<and> (\<exists>w' u'. addResetPasswordToken ''teyla'' (JStr ''tok'') (JDate 5000) None None
                  (awake, atlantis) = (Returned None, awake, w')
           \<and> fst (fetchUserById ''teyla'' (awake, w')) = Returned (Some (JObj u'))
           \<and> field ''resetPassToken'' u' = Some (JStr ''tok'')
           \<and> field ''resetPassTokenExpiration'' u' = Some (JDate 5000)
           \<and> field ''dateUpdated'' u' = Some (JDate (server_clock atlantis))
           \<and> field ''verificationToken'' u' = None)"
proof -
  have a: "initted awake" and b: "users awake = Some ''users''"
    by (simp_all add: awake_eq)
  show ?thesis
    using reset_sets_token_and_date
      [OF a b teyla_fetched, of "JStr ''tok''" "JDate 5000"] a b teyla_fetched
    by simp
qed

lemma just_verified_eq:
  "just_verified =
     \<lparr> colls = (\<lambda>n. if n = ''users'' then
                  [sheppard, mckay,
                   [(''_id'', JStr ''teyla''),
                    (''emails'', JArr [JObj [(''value'', JStr ''teyla@athos.org''),
                                             (''type'', JStr ''home'')]]),
                    (''verified'', JBool True),
                    (''dateUpdated'', JDate 1000)]]
                else []),
       oplog = [(''users'', FindOne), (''users'', UpdateOne)],
       server_clock = 1000,
       client_clock = 1000,
       oid_supply = (\<lambda>k. ''oid'' @ show_nat k),
       oids_made = 0,
       resolvable = (\<lambda>n. True),
       date_string = show_nat,
       number_string = show_int \<rparr>"
  by (simp add: just_verified_def verifyUserAccount_def gated_def ready_def awake_eq
      verifyUserAccount_run_def findOne_def settle_def updateOne_def
      atlantis_def apply_update_def update_paths_def set_path_def unset_path_def clash_def
      log_request_def sheppard_def mckay_def teyla_def field_def value_matches_def step_def
      field_of_def find_one_def fun_eq_iff)

text \<open>
  C8 as stated fails: \<open>verifyUserAccount\<close> and then \<open>addResetPasswordToken\<close>
  while the store's clock reads the same millisecond leave \<open>dateUpdated\<close> at the
  value it had before the second call.
\<close>

theorem reset_in_same_millisecond:
  "fst (fetchUserById ''teyla'' (awake, just_verified))
     = Returned (Some (JObj
         [(''_id'', JStr ''teyla''),
          (''emails'', JArr [JObj [(''value'', JStr ''teyla@athos.org''),
                                   (''type'', JStr ''home'')]]),
          (''verified'', JBool True),
          (''dateUpdated'', JDate 1000)]))
   \<and> fst (fetchUserById ''teyla''
            (awake, snd (snd (addResetPasswordToken ''teyla'' (JStr ''tok'') (JDate 5000)
                                None None (awake, just_verified)))))
     = Returned (Some (JObj
         [(''_id'', JStr ''teyla''),
          (''emails'', JArr [JObj [(''value'', JStr ''teyla@athos.org''),
                                   (''type'', JStr ''home'')]]),
          (''verified'', JBool True),
          (''dateUpdated'', JDate 1000),
          (''resetPassToken'', JStr ''tok''),
          (''resetPassTokenExpiration'', JDate 5000)]))"
  by (simp add: just_verified_eq fetchUserById_open awake_eq
      addResetPasswordToken_def addResetPasswordToken_run_def settle_def updateOne_def
      apply_update_def update_paths_def set_path_def unset_path_def clash_def
      log_request_def sheppard_def mckay_def field_def value_matches_def step_def
      field_of_def find_one_def)

lemma verifyUserAccount_on_user:
  assumes "initted d" and "users d = Some n"
    and "find_one (Field ''_id'' (JStr userId)) (colls w n) = Some u"
  shows "\<exists>w'. verifyUserAccount userId None None None (d, w) = (Returned None, d, w')
           \<and> find_one (Field ''_id'' (JStr userId)) (colls w' n)
               = Some (assign ''dateUpdated'' (JDate (server_clock w))
                        (unset_path ''verificationTokenExpiration''
                          (unset_path ''verificationToken''
                            (assign ''verified'' (JBool True) u))))
           \<and> oplog w' = oplog w @ [(n, FindOne), (n, UpdateOne)]"
proof -
  let ?f = "Field ''_id'' (JStr userId)"
  let ?u' = "assign ''dateUpdated'' (JDate (server_clock w))
               (unset_path ''verificationTokenExpiration''
                 (unset_path ''verificationToken''
                   (assign ''verified'' (JBool True) u)))"
  let ?w1 = "log_request n FindOne w"
  have "field ''_id'' ?u' = field ''_id'' u"
    by (simp add: field_assign_other field_unset_other)
  from matches_id_cong [OF this, of "JStr userId"] have m: "matches ?f ?u'"
    using find_one_matches [OF assms(3)] by (simp del: matches.simps)
  have f1: "find_one ?f (colls ?w1 n) = Some u"
    using assms(3) by (simp add: log_request_def)
  have a1: "apply_update (server_clock ?w1)
     \<lparr> u_set = [(''verified'', JBool True)],
       u_unset = map fst (assign ''verificationTokenExpiration'' (JStr [])
                           (assign ''verificationToken'' (JStr []) [])),
       u_currentDate = [''dateUpdated''],
       u_push = [] \<rparr> u = Inr ?u'"
    by (simp only: apply_update_verify) (simp add: log_request_def)
  from updateOne_found [OF f1 a1 m]
  obtain w' where
    "updateOne (Some n) ?f
       \<lparr> u_set = [(''verified'', JBool True)],
         u_unset = map fst (assign ''verificationTokenExpiration'' (JStr [])
                             (assign ''verificationToken'' (JStr []) [])),
         u_currentDate = [''dateUpdated''],
         u_push = [] \<rparr> ?w1 = (Inr (), w')"
    and "find_one ?f (colls w' n) = Some ?u'"
    and "oplog w' = oplog ?w1 @ [(n, UpdateOne)]"
    by blast
  then show ?thesis
    using assms(1,2)
    by (simp add: verifyUserAccount_def gated_def ready_def verifyUserAccount_run_def
        findOne_def settle_def log_request_def del: assign.simps)
qed

text \<open>
  C7. With the default field names, \<open>verifyUserAccount\<close> on an existing user sends
  the store one read and one update; after it the user has \<open>verified = true\<close>, no
  \<open>verificationToken\<close> and no \<open>verificationTokenExpiration\<close>, and \<open>dateUpdated\<close>
  is the time of the store's clock.
\<close>

theorem verify_in_one_update:
  assumes "initted d" and "users d = Some n"
    and "fst (fetchUserById userId (d, w)) = Returned (Some (JObj u))"
  shows "\<exists>w' u'. verifyUserAccount userId None None None (d, w) = (Returned None, d, w')
           \<and> oplog w' = oplog w @ [(n, FindOne), (n, UpdateOne)]
           \<and> fst (fetchUserById userId (d, w')) = Returned (Some (JObj u'))
           \<and> field ''verified'' u' = Some (JBool True)
           \<and> field ''verificationToken'' u' = None
           \<and> field ''verificationTokenExpiration'' u' = None
           \<and> field ''dateUpdated'' u' = Some (JDate (server_clock w))"
proof -
  from assms have f: "find_one (Field ''_id'' (JStr userId)) (colls w n) = Some u"
    by (simp add: fetched_user)
  let ?u' = "assign ''dateUpdated'' (JDate (server_clock w))
               (unset_path ''verificationTokenExpiration''
                 (unset_path ''verificationToken''
                   (assign ''verified'' (JBool True) u)))"
  from verifyUserAccount_on_user [OF assms(1,2) f]
  obtain w' where
    w': "verifyUserAccount userId None None None (d, w) = (Returned None, d, w')"
      "find_one (Field ''_id'' (JStr userId)) (colls w' n) = Some ?u'"
      "oplog w' = oplog w @ [(n, FindOne), (n, UpdateOne)]"
    by blast
  have "fst (fetchUserById userId (d, w')) = Returned (Some (JObj ?u'))"
    using w'(2) assms(1,2) by (simp add: fetched_user)
  moreover have "field ''verified'' ?u' = Some (JBool True)"
    by (simp add: field_assign_other field_unset_other field_assign_same)
  moreover have "field ''verificationToken'' ?u' = None"
    by (simp add: field_assign_other field_unset_other field_unset_same)
  moreover have "field ''verificationTokenExpiration'' ?u' = None"
    by (simp add: field_assign_other field_unset_same)
  moreover have "field ''dateUpdated'' ?u' = Some (JDate (server_clock w))"
    by (simp add: field_assign_same)
  ultimately show ?thesis using w'(1,3) by blast
qed

theorem verify_in_one_update_witness:
  "initted awake \<and> users awake = Some ''users''
   \<and> fst (fetchUserById ''teyla'' (awake, atlantis)) = Returned (Some (JObj teyla))
   \<and> (\<exists>w' u'. verifyUserAccount ''teyla'' None None None (awake, atlantis)
                  = (Returned None, awake, w')
           \<and> oplog w' = oplog atlantis @ [(''users'', FindOne), (''users'', UpdateOne)]
           \<and> fst (fetchUserById ''teyla'' (awake, w')) = Returned (Some (JObj u'))
           \<and> field ''verified'' u' = Some (JBool True)
           \<and> field ''verificationToken'' u' = None
           \<and> field ''verificationTokenExpiration'' u' = None
           \<and> field ''dateUpdated'' u' = Some (JDate (server_clock atlantis)))"
proof -
  have a: "initted awake" and b: "users awake = Some ''users''"
    by (simp_all add: awake_eq)
  show ?thesis
    using verify_in_one_update [OF a b teyla_fetched] a b teyla_fetched
    by simp
qed

subsection \<open>Services and emails of a user\<close>

text \<open>
  C2. \<open>assertUserServiceData\<close> sets the whole \<open>services\<close> field to the one
  entry it is given: asserting \<open>google\<close> for a user linked to \<open>facebook\<close>
  leaves the user without the \<open>facebook\<close> entry.
\<close>

theorem assertUserServiceData_drops_other_services:
  "fst (fetchUserById ''sheppard'' (awake, atlantis)) = Returned (Some (JObj sheppard))
   \<and> field ''services'' sheppard = Some (JObj [(''facebook'', JObj [(''id'', JStr ''1'')])])
   \<and> fst (fetchUserById ''sheppard''
            (awake, snd (snd (assertUserServiceData ''sheppard'' ''google''
                                [(''id'', JStr ''5'')] (awake, atlantis)))))
     = Returned (Some (JObj
         [(''_id'', JStr ''sheppard''),
          (''emails'', JArr [JObj [(''value'', JStr ''sheppard@atlantis.net'')]]),
          (''services'', JObj [(''google'', JObj [(''id'', JStr ''5'')])]),
          (''dateUpdated'', JDate 1000)]))"
  by (simp add: fetchUserById_open awake_eq assertUserServiceData_def gated_def ready_def
      assertUserServiceData_run_def settle_def updateOne_def atlantis_def
      apply_update_def update_paths_def set_path_def clash_def
      log_request_def sheppard_def field_def value_matches_def step_def
      field_of_def find_one_def)

text \<open>
  C1 as stated fails: asserting \<open>{ verified: true }\<close> for an address whose entry
  has \<open>type: 'home'\<close> gives an entry that still has the \<open>type\<close>; it is not
  \<open>{ value, ...data }\<close>.
\<close>

theorem email_entry_keeps_old_metadata:
  "fst (fetchUserById ''teyla'' (awake, atlantis)) = Returned (Some (JObj teyla))
   \<and> field ''emails'' teyla
       = Some (JArr [JObj [(''value'', JStr ''teyla@athos.org''), (''type'', JStr ''home'')]])
   \<and> fst (fetchUserById ''teyla''
            (awake, snd (snd (assertUserEmailData ''teyla'' ''teyla@athos.org''
                                (Some [(''verified'', JBool True)]) (awake, atlantis)))))
     = Returned (Some (JObj
         [(''_id'', JStr ''teyla''),
          (''emails'', JArr [JObj [(''value'', JStr ''teyla@athos.org''),
                                   (''type'', JStr ''home''),
                                   (''verified'', JBool True)]]),
          (''verified'', JBool False),
          (''verificationToken'', JStr ''vt''),
          (''verificationTokenExpiration'', JDate 9000),
          (''dateUpdated'', JDate 1000)]))
   \<and> spread [(''value'', JStr ''teyla@athos.org'')] [(''verified'', JBool True)]
       = [(''value'', JStr ''teyla@athos.org''), (''verified'', JBool True)]"
  by (simp add: fetchUserById_open awake_eq assertUserEmailData_def gated_def ready_def
      assertUserEmailData_run_def settle_def updateOne_def findOne_def atlantis_def
      apply_update_def update_paths_def set_path_def clash_def indexOf_def props_of_def
      spread_opt_def show_int_def show_nat.simps digit_char_def parse_index_def digit_of_def
      log_request_def sheppard_def mckay_def teyla_def field_def value_matches_def step_def
      field_of_def find_one_def)

lemma find_email_found:
  "find_email email es = Inr (Some e) \<Longrightarrow>
   \<exists>ob. e = JObj ob \<and> field ''value'' ob = Some (JStr email)"
  by (induction es) (auto split: jv.splits if_splits)

lemma find_email_index:
  "find_email email es = Inr (Some e) \<Longrightarrow>
   \<exists>i<length es. es ! i = e \<and> index_from j e es = int (j + i)"
proof (induction es arbitrary: j)
  case Nil
  then show ?case by simp
next
  case (Cons x es)
  from find_email_found [OF Cons.prems] obtain ob where
    e: "e = JObj ob" "field ''value'' ob = Some (JStr email)" by blast
  show ?case
  proof (cases "x = e")
    case True
    then show ?thesis by (intro exI [of _ 0]) simp
  next
    case False
    with Cons.prems e have "find_email email es = Inr (Some e)"
      by (auto split: jv.splits if_splits)
    from Cons.IH [OF this, of "Suc j"] obtain i where
      "i < length es" "es ! i = e" "index_from (Suc j) e es = int (Suc j + i)" by blast
    with False show ?thesis by (intro exI [of _ "Suc i"]) simp
  qed
qed

lemma split_path_show_nat: "split_path (show_nat i) = [show_nat i]"
  using show_nat_no_dot [of i] by (rule split_path_plain)

lemma split_path_emails_index: "split_path (''emails.'' @ show_nat i) = [''emails'', show_nat i]"
  using split_path_dot [of "''emails''" "show_nat i"]
  by (simp add: split_path_show_nat)

lemma apply_update_email:
  assumes "field ''emails'' u = Some (JArr es)" and "i < length es"
  shows "apply_update now
           \<lparr> u_set = [(''emails.'' @ show_nat i, v)], u_unset = [],
             u_currentDate = [''dateUpdated''], u_push = [] \<rparr> u
         = Inr (assign ''dateUpdated'' (JDate now) (assign ''emails'' (JArr (es[i := v])) u))"
  using assms
  by (simp add: apply_update_def update_paths_def clash_def set_path_top set_path_def
      split_path_show_nat show_nat_nonempty show_nat_nonempty [symmetric]
      parse_index_show_nat)

lemma assertUserEmailData_on_entry:
  assumes "initted d" and "users d = Some n"
    and "find_one (Field ''_id'' (JStr userId)) (colls w n) = Some u"
    and "field ''emails'' u = Some (JArr es)"
    and "find_email email es = Inr (Some (JObj ob))"
    and "i < length es" and "indexOf es (Some (JObj ob)) = int i"
  shows "\<exists>w'. assertUserEmailData userId email (Some data) (d, w) = (Returned None, d, w')
           \<and> find_one (Field ''_id'' (JStr userId)) (colls w' n)
               = Some (assign ''dateUpdated'' (JDate (server_clock w))
                        (assign ''emails'' (JArr (es[i := JObj (spread ob data)])) u))"
proof -
  let ?f = "Field ''_id'' (JStr userId)"
  let ?u' = "assign ''dateUpdated'' (JDate (server_clock w))
               (assign ''emails'' (JArr (es[i := JObj (spread ob data)])) u)"
  let ?w1 = "log_request n FindOne w"
  let ?upd = "\<lparr> u_set = [(''emails.'' @ show_nat i, JObj (spread ob data))], u_unset = [],
                u_currentDate = [''dateUpdated''], u_push = [] \<rparr>"
  have "field ''_id'' ?u' = field ''_id'' u"
    by (simp add: field_assign_other)
  from matches_id_cong [OF this, of "JStr userId"] have m: "matches ?f ?u'"
    using find_one_matches [OF assms(3)] by (simp del: matches.simps)
  have f1: "find_one ?f (colls ?w1 n) = Some u"
    using assms(3) by (simp add: log_request_def)
  have a1: "apply_update (server_clock ?w1) ?upd u = Inr ?u'"
    using apply_update_email [OF assms(4,6)] by (simp add: log_request_def)
  from updateOne_found [OF f1 a1 m]
  obtain w' where
    "updateOne (Some n) ?f ?upd ?w1 = (Inr (), w')"
    and "find_one ?f (colls w' n) = Some ?u'"
    by blast
  then show ?thesis
    using assms
    by (simp add: assertUserEmailData_def gated_def ready_def assertUserEmailData_run_def
        findOne_def settle_def props_of_def spread_opt_def show_int_def
        del: assign.simps matches.simps)
qed

subsection \<open>The configuration\<close>

lemma fetchConfig_open:
  "initted d \<Longrightarrow> config d = Some n \<Longrightarrow>
   fetchConfig (d, w) =
     (case add_rows (date_string w) (number_string w) (colls w n) fresh of
        Inl e \<Rightarrow> (Threw e, d, log_request n FindAll w)
      | Inr s \<Rightarrow> (Returned (Some (JObj (map (\<lambda>p. (fst p, JObj (snd p))) (made s)))),
                   d, log_request n FindAll w))"
  by (simp add: fetchConfig_def gated_def ready_def fetchConfig_run_def find_toArray_def
      settle_def log_request_def split: sum.splits)

lemma setConfigKey_stored:
  assumes "initted d" and "config d = Some n"
    and "field ''_id'' val = None"
    and "setConfigKey type id' val (d, w) = (Returned None, d', w')"
  shows "d' = d \<and> date_string w' = date_string w \<and> number_string w' = number_string w
         \<and> colls w' n = colls w n @ [spread [(''type'', JStr type), (''_id'', JStr id')] val]"
proof -
  let ?doc = "spread [(''type'', JStr type), (''_id'', JStr id')] val"
  have "field ''_id'' ?doc = Some (JStr id')"
    using assms(3) by (simp add: field_spread_other) (simp add: field_def)
  with assms(1,2,4) show ?thesis
    by (auto simp: setConfigKey_def gated_def ready_def setConfigKey_run_def insertOne_def
        insert_one_def settle_def log_request_def split: if_splits sum.splits)
qed


lemma field_map_snd:
  "field k (map (\<lambda>p. (fst p, f (snd p))) xs) = map_option f (field k xs)"
  by (induction xs) (auto simp: field_def)


text \<open>A row that files plainly, on an untouched prototype, goes into \<open>out\<close>.\<close>

lemma add_row_plain:
  assumes p: "on_prototype s = []"
    and t: "key_of ds ns [] (field ''type'' row) = Inr t"
    and i: "key_of ds ns [] (field ''_id'' row) = Inr i"
    and n: "t \<notin> set inherited_names"
  shows "\<exists>s' inner. add_row ds ns row s = Inr s' \<and> on_prototype s' = []
           \<and> field t (made s') = Some inner
           \<and> (i \<noteq> ''__proto__'' \<longrightarrow> field i inner = Some (JObj row))"
proof -
  have r: "read [] ''type'' row = field ''type'' row" "read [] ''_id'' row = field ''_id'' row"
    by (simp_all add: read_def field_def split: option.splits)
  from n have n': "t \<noteq> ''__proto__''" "t \<notin> set inherited_functions"
    by (simp_all add: inherited_names_def)
  show ?thesis
  proof (cases "field t (made s)")
    case None
    with p n' have l: "lookup s t = Nothing"
      by (simp add: lookup_def) (simp add: field_def)
    have l1: "lookup (s\<lparr>made := assign t [] (made s)\<rparr>) t = Entry []"
      by (simp add: lookup_def field_assign_same)
    show ?thesis
      using p by (simp add: add_row_def r t i l l1 Let_def field_assign_same)
        (simp add: field_def)
  next
    case (Some inner)
    then have l: "lookup s t = Entry inner" by (simp add: lookup_def)
    show ?thesis
      using p Some by (simp add: add_row_def r t i l Let_def field_assign_same)
  qed
qed

lemma add_rows_snoc:
  "add_rows ds ns (rows @ [row]) s =
     (case add_rows ds ns rows s of Inl e \<Rightarrow> Inl e | Inr s1 \<Rightarrow> add_row ds ns row s1)"
  by (induction rows arbitrary: s) (auto split: sum.splits)

lemma add_rows_plain:
  "list_all (files_plainly ds ns) rows \<Longrightarrow> on_prototype s = [] \<Longrightarrow>
   \<exists>s'. add_rows ds ns rows s = Inr s' \<and> on_prototype s' = []"
proof (induction rows arbitrary: s)
  case Nil
  then show ?case by simp
next
  case (Cons row rows)
  from Cons.prems(1) obtain t i where
    "key_of ds ns [] (field ''type'' row) = Inr t" "key_of ds ns [] (field ''_id'' row) = Inr i"
    "t \<notin> set inherited_names"
    by (auto simp: files_plainly_def split: sum.splits)
  from add_row_plain [OF Cons.prems(2) this] obtain s1 where
    s1: "add_row ds ns row s = Inr s1" "on_prototype s1 = []" by blast
  from Cons.prems(1) have "list_all (files_plainly ds ns) rows" by simp
  from Cons.IH [OF this s1(2)] s1(1) show ?case by simp
qed

text \<open>
  C4, amended. Let \<open>value\<close> have no field \<open>type\<close> and no field \<open>_id\<close>, let
  \<open>type\<close> be no name that every object inherits and \<open>id\<close> not be \<open>__proto__\<close>,
  and let every entry in the store be one that \<open>fetchConfig\<close> files in \<open>out\<close>.
  When \<open>setConfigKey(type, id, value)\<close> succeeds, \<open>fetchConfig()\<close> has
  \<open>{ type, _id, ...value }\<close> as the own entry at \<open>[type][id]\<close>; and \<open>fetchConfig()\<close>
  of an empty collection is the empty mapping.
\<close>

theorem config_round_trip:
  assumes "initted d" and "config d = Some n"
    and "field ''type'' val = None" and "field ''_id'' val = None"
    and "type \<notin> set inherited_names" and "id' \<noteq> ''__proto__''"
    and "list_all (files_plainly (date_string w) (number_string w)) (colls w n)"
    and "setConfigKey type id' val (d, w) = (Returned None, d', w')"
  shows "(\<exists>out inner. fst (fetchConfig (d', w')) = Returned (Some (JObj out))
            \<and> field type out = Some (JObj inner)
            \<and> field id' inner
                = Some (JObj (spread [(''type'', JStr type), (''_id'', JStr id')] val)))
         \<and> (colls w n = [] \<longrightarrow> fst (fetchConfig (d, w)) = Returned (Some (JObj [])))"
proof
  let ?doc = "spread [(''type'', JStr type), (''_id'', JStr id')] val"
  let ?ds = "date_string w" and ?ns = "number_string w"
  from setConfigKey_stored [OF assms(1,2,4,8)] have
    s: "d' = d" "date_string w' = ?ds" "number_string w' = ?ns" "colls w' n = colls w n @ [?doc]"
    by simp_all
  have t: "key_of ?ds ?ns [] (field ''type'' ?doc) = Inr type"
    using assms(3)
    by (simp add: field_spread_other key_of_def to_key_def) (simp add: field_def key_of_def to_key_def)
  have i: "key_of ?ds ?ns [] (field ''_id'' ?doc) = Inr id'"
    using assms(4)
    by (simp add: field_spread_other key_of_def to_key_def) (simp add: field_def key_of_def to_key_def)
  have "on_prototype fresh = []" by (simp add: fresh_def)
  from add_rows_plain [OF assms(7) this] obtain s1 where
    s1: "add_rows ?ds ?ns (colls w n) fresh = Inr s1" "on_prototype s1 = []" by blast
  from add_row_plain [OF s1(2) t i assms(5)] assms(6) obtain s2 inner where
    s2: "add_row ?ds ?ns ?doc s1 = Inr s2" "field type (made s2) = Some inner"
      "field id' inner = Some (JObj ?doc)" by blast
  have "add_rows ?ds ?ns (colls w' n) fresh = Inr s2"
    by (simp add: s add_rows_snoc s1 s2)
  with assms(1,2) have
    "fst (fetchConfig (d', w'))
       = Returned (Some (JObj (map (\<lambda>p. (fst p, JObj (snd p))) (made s2))))"
    by (simp add: s(1,2,3) fetchConfig_open)
  moreover have "field type (map (\<lambda>p. (fst p, JObj (snd p))) (made s2)) = Some (JObj inner)"
    by (simp add: field_map_snd s2)
  ultimately show "\<exists>out inner. fst (fetchConfig (d', w')) = Returned (Some (JObj out))
            \<and> field type out = Some (JObj inner)
            \<and> field id' inner = Some (JObj ?doc)"
    using s2(3) by blast
next
  show "colls w n = [] \<longrightarrow> fst (fetchConfig (d, w)) = Returned (Some (JObj []))"
    using assms(1,2) by (simp add: fetchConfig_open fresh_def)
qed

lemma test_config_set:
  "setConfigKey ''test'' ''test1'' [(''a'', JNum 1)] (awake, atlantis)
     = (Returned None, awake,
        log_request ''apolloPassportConfig'' InsertOne
          (atlantis\<lparr>colls := (colls atlantis)
             (''apolloPassportConfig'' :=
                [[(''type'', JStr ''test''), (''_id'', JStr ''test1''), (''a'', JNum 1)]])\<rparr>))"
  by (simp add: setConfigKey_def gated_def ready_def setConfigKey_run_def insertOne_def
      insert_one_def has_id_def settle_def awake_eq atlantis_def field_def)

lemma configured_set:
  "setConfigKey ''service'' ''facebook'' [(''id'', JStr ''1'')] (awake, configured)
     = (Returned None, awake,
        log_request ''apolloPassportConfig'' InsertOne
          (configured\<lparr>colls := (colls configured)
             (''apolloPassportConfig'' :=
                [[(''type'', JStr ''test''), (''_id'', JStr ''test1''), (''a'', JNum 1)],
                 [(''type'', JStr ''service''), (''_id'', JStr ''facebook''),
                  (''id'', JStr ''1'')]])\<rparr>))"
  by (simp add: setConfigKey_def gated_def ready_def setConfigKey_run_def insertOne_def
      insert_one_def has_id_def settle_def awake_eq configured_def atlantis_def field_def)

theorem config_round_trip_witness:
  "initted awake \<and> config awake = Some ''apolloPassportConfig''
   \<and> field ''type'' [(''a'', JNum 1)] = None \<and> field ''_id'' [(''a'', JNum 1)] = None
   \<and> ''test'' \<notin> set inherited_names \<and> ''test1'' \<noteq> ''__proto__''
   \<and> list_all (files_plainly (date_string atlantis) (number_string atlantis))
        (colls atlantis ''apolloPassportConfig'')
   \<and> fst (setConfigKey ''test'' ''test1'' [(''a'', JNum 1)] (awake, atlantis)) = Returned None
   \<and> (\<exists>out inner.
         fst (fetchConfig (snd (setConfigKey ''test'' ''test1'' [(''a'', JNum 1)]
                                  (awake, atlantis))))
           = Returned (Some (JObj out))
         \<and> field ''test'' out = Some (JObj inner)
         \<and> field ''test1'' inner
             = Some (JObj [(''type'', JStr ''test''), (''_id'', JStr ''test1''), (''a'', JNum 1)]))
   \<and> colls atlantis ''apolloPassportConfig'' = []
   \<and> fst (fetchConfig (awake, atlantis)) = Returned (Some (JObj []))
   \<and> field ''type'' [(''id'', JStr ''1'')] = None \<and> field ''_id'' [(''id'', JStr ''1'')] = None
   \<and> ''service'' \<notin> set inherited_names \<and> ''facebook'' \<noteq> ''__proto__''
   \<and> colls configured ''apolloPassportConfig''
       = [[(''type'', JStr ''test''), (''_id'', JStr ''test1''), (''a'', JNum 1)]]
   \<and> list_all (files_plainly (date_string configured) (number_string configured))
        (colls configured ''apolloPassportConfig'')
   \<and> fst (setConfigKey ''service'' ''facebook'' [(''id'', JStr ''1'')] (awake, configured))
       = Returned None
   \<and> (\<exists>out inner.
         fst (fetchConfig (snd (setConfigKey ''service'' ''facebook'' [(''id'', JStr ''1'')]
                                  (awake, configured))))
           = Returned (Some (JObj out))
         \<and> field ''service'' out = Some (JObj inner)
         \<and> field ''facebook'' inner
             = Some (JObj [(''type'', JStr ''service''), (''_id'', JStr ''facebook''),
                           (''id'', JStr ''1'')]))"
proof -
  have a: "initted awake" and b: "config awake = Some ''apolloPassportConfig''"
    by (simp_all add: awake_eq)
  have c: "field ''type'' [(''a'', JNum 1)] = None" and d: "field ''_id'' [(''a'', JNum 1)] = None"
    by (simp_all add: field_def)
  have e: "colls atlantis ''apolloPassportConfig'' = []"
    by (simp add: atlantis_def)
  have f: "''test'' \<notin> set inherited_names" and g: "''test1'' \<noteq> ''__proto__''"
    by (simp_all add: inherited_names_def inherited_functions_def)
  have h: "list_all (files_plainly (date_string atlantis) (number_string atlantis))
        (colls atlantis ''apolloPassportConfig'')"
    by (simp add: e)
  have first: "fst (setConfigKey ''test'' ''test1'' [(''a'', JNum 1)] (awake, atlantis))
                 = Returned None
   \<and> (\<exists>out inner.
         fst (fetchConfig (snd (setConfigKey ''test'' ''test1'' [(''a'', JNum 1)]
                                  (awake, atlantis))))
           = Returned (Some (JObj out))
         \<and> field ''test'' out = Some (JObj inner)
         \<and> field ''test1'' inner
             = Some (JObj [(''type'', JStr ''test''), (''_id'', JStr ''test1''), (''a'', JNum 1)]))
   \<and> fst (fetchConfig (awake, atlantis)) = Returned (Some (JObj []))"
    using config_round_trip [OF a b c d f g h test_config_set] e
    by (simp add: test_config_set)
  have c': "field ''type'' [(''id'', JStr ''1'')] = None"
    and d': "field ''_id'' [(''id'', JStr ''1'')] = None"
    by (simp_all add: field_def)
  have e': "colls configured ''apolloPassportConfig''
       = [[(''type'', JStr ''test''), (''_id'', JStr ''test1''), (''a'', JNum 1)]]"
    by (simp add: configured_def)
  have f': "''service'' \<notin> set inherited_names" and g': "''facebook'' \<noteq> ''__proto__''"
    by (simp_all add: inherited_names_def inherited_functions_def)
  have h': "list_all (files_plainly (date_string configured) (number_string configured))
        (colls configured ''apolloPassportConfig'')"
    by (simp add: e' files_plainly_def key_of_def to_key_def field_def
        inherited_names_def inherited_functions_def)
  have second: "fst (setConfigKey ''service'' ''facebook'' [(''id'', JStr ''1'')]
                      (awake, configured)) = Returned None
   \<and> (\<exists>out inner.
         fst (fetchConfig (snd (setConfigKey ''service'' ''facebook'' [(''id'', JStr ''1'')]
                                  (awake, configured))))
           = Returned (Some (JObj out))
         \<and> field ''service'' out = Some (JObj inner)
         \<and> field ''facebook'' inner
             = Some (JObj [(''type'', JStr ''service''), (''_id'', JStr ''facebook''),
                           (''id'', JStr ''1'')]))"
    using config_round_trip [OF a b c' d' f' g' h' configured_set]
    by (simp add: configured_set)
  from a b c d e f g h first c' d' e' f' g' h' second show ?thesis by blast
qed

text \<open>
  C4 as stated fails: a \<open>value\<close> with a field \<open>type\<close> overwrites the type of
  the stored entry, and \<open>fetchConfig()\<close> files the entry under that type; there is
  nothing at \<open>['service']\<close>.
\<close>

theorem config_value_with_type_field:
  "fst (setConfigKey ''service'' ''facebook'' [(''type'', JStr ''oauth'')] (awake, atlantis))
     = Returned None
   \<and> fst (fetchConfig (snd (setConfigKey ''service'' ''facebook'' [(''type'', JStr ''oauth'')]
                              (awake, atlantis))))
     = Returned (Some (JObj
         [(''oauth'', JObj [(''facebook'', JObj [(''type'', JStr ''oauth''),
                                                   (''_id'', JStr ''facebook'')])])]))
   \<and> field ''service''
         [(''oauth'', JObj [(''facebook'', JObj [(''type'', JStr ''oauth''),
                                                   (''_id'', JStr ''facebook'')])])] = None"
  by (simp add: setConfigKey_def gated_def ready_def setConfigKey_run_def insertOne_def
      insert_one_def has_id_def settle_def awake_eq atlantis_def field_def log_request_def
      fetchConfig_def fetchConfig_run_def find_toArray_def
      add_row_def key_of_def to_key_def read_def lookup_def fresh_def
      inherited_functions_def read_only_of_def Let_def)

text \<open>
  Under a name that every object inherits, \<open>out\<close> gets no property of its own.
  For the type \<open>constructor\<close> the row is written onto the function \<open>Object\<close>, and
  \<open>fetchConfig()\<close> returns an object with no own property.
\<close>

lemma config_type_constructor:
  "fst (setConfigKey ''constructor'' ''facebook'' [] (awake, atlantis)) = Returned None
   \<and> fst (fetchConfig (snd (setConfigKey ''constructor'' ''facebook'' [] (awake, atlantis))))
     = Returned (Some (JObj []))"
  by (simp add: setConfigKey_def gated_def ready_def setConfigKey_run_def insertOne_def
      insert_one_def has_id_def settle_def awake_eq atlantis_def field_def log_request_def
      fetchConfig_def fetchConfig_run_def find_toArray_def
      add_row_def key_of_def to_key_def read_def lookup_def fresh_def
      inherited_functions_def read_only_of_def Let_def)

text \<open>
  The name of a function is read-only: for the type \<open>constructor\<close> and the id
  \<open>name\<close>, \<open>fetchConfig()\<close> throws a TypeError.
\<close>

lemma config_type_constructor_id_name:
  "fst (setConfigKey ''constructor'' ''name'' [] (awake, atlantis)) = Returned None
   \<and> fst (fetchConfig (snd (setConfigKey ''constructor'' ''name'' [] (awake, atlantis))))
     = Threw TypeError"
  by (simp add: setConfigKey_def gated_def ready_def setConfigKey_run_def insertOne_def
      insert_one_def has_id_def settle_def awake_eq atlantis_def field_def log_request_def
      fetchConfig_def fetchConfig_run_def find_toArray_def
      add_row_def key_of_def to_key_def read_def lookup_def fresh_def
      inherited_functions_def read_only_of_def Let_def)

text \<open>
  For the id \<open>__proto__\<close> the row becomes the prototype of the object made for the
  type, which gets no own property.
\<close>

lemma config_id_proto:
  "fst (setConfigKey ''service'' ''__proto__'' [] (awake, atlantis)) = Returned None
   \<and> fst (fetchConfig (snd (setConfigKey ''service'' ''__proto__'' [] (awake, atlantis))))
     = Returned (Some (JObj [(''service'', JObj [])]))"
  by (simp add: setConfigKey_def gated_def ready_def setConfigKey_run_def insertOne_def
      insert_one_def has_id_def settle_def awake_eq atlantis_def field_def log_request_def
      fetchConfig_def fetchConfig_run_def find_toArray_def
      add_row_def key_of_def to_key_def read_def lookup_def fresh_def
      inherited_functions_def read_only_of_def Let_def)

text \<open>
  An entry stored under the type \<open>__proto__\<close> is put on \<open>Object.prototype\<close>, where
  \<open>out\<close> inherits it: after \<open>setConfigKey('__proto__', 'service', {})\<close>, the entry
  of \<open>setConfigKey('service', 'facebook', {})\<close> is written into that row, and \<open>out\<close>
  has no own property.
\<close>

lemma config_after_type_proto:
  "fst (setConfigKey ''service'' ''facebook'' []
           (snd (setConfigKey ''__proto__'' ''service'' [] (awake, atlantis)))) = Returned None
   \<and> fst (fetchConfig (snd (setConfigKey ''service'' ''facebook'' []
           (snd (setConfigKey ''__proto__'' ''service'' [] (awake, atlantis))))))
     = Returned (Some (JObj []))"
  by (simp add: setConfigKey_def gated_def ready_def setConfigKey_run_def insertOne_def
      insert_one_def has_id_def settle_def awake_eq atlantis_def field_def log_request_def
      fetchConfig_def fetchConfig_run_def find_toArray_def
      add_row_def key_of_def to_key_def read_def lookup_def fresh_def
      inherited_functions_def read_only_of_def Let_def)

subsection \<open>Looking a user up\<close>



lemma email_recordD:
  assumes "email_record e"
  shows "\<exists>ob. e = JObj ob \<and> scalar (field ''value'' ob)"
  using assms by (cases e) (simp_all add: email_record_def)














lemma or_null_undefined: "or_null None = Some JNull"
  by (simp add: or_null_def truthy_def)













subsection \<open>The entry of an address\<close>

lemma email_entry_merged_found:
  assumes "initted d" and "users d = Some n"
    and "fst (fetchUserById userId (d, w)) = Returned (Some (JObj u))"
    and "field ''emails'' u = Some (JArr es)"
    and "find_email email es = Inr (Some e)"
  shows "\<exists>w' u' i ob. assertUserEmailData userId email (Some data) (d, w)
                        = (Returned None, d, w')
           \<and> fst (fetchUserById userId (d, w')) = Returned (Some (JObj u'))
           \<and> i < length es \<and> es ! i = JObj ob \<and> e = JObj ob
           \<and> field ''value'' ob = Some (JStr email)
           \<and> field ''emails'' u' = Some (JArr (es[i := JObj (spread ob data)]))
           \<and> (\<forall>k. field k data = None \<longrightarrow> field k (spread ob data) = field k ob)"
proof -
  from assms have f: "find_one (Field ''_id'' (JStr userId)) (colls w n) = Some u"
    by (simp add: fetched_user)
  from find_email_found [OF assms(5)] obtain ob where
    ob: "e = JObj ob" "field ''value'' ob = Some (JStr email)" by blast
  from find_email_index [OF assms(5), of 0] obtain i where
    i: "i < length es" "es ! i = e" "indexOf es (Some e) = int i"
    by (auto simp: indexOf_def)
  let ?u' = "assign ''dateUpdated'' (JDate (server_clock w))
               (assign ''emails'' (JArr (es[i := JObj (spread ob data)])) u)"
  from assertUserEmailData_on_entry
    [OF assms(1,2) f assms(4) assms(5) [unfolded ob(1)] i(1) i(3) [unfolded ob(1)], of data]
  obtain w' where
    w': "assertUserEmailData userId email (Some data) (d, w) = (Returned None, d, w')"
      "find_one (Field ''_id'' (JStr userId)) (colls w' n) = Some ?u'"
    by blast
  have "fst (fetchUserById userId (d, w')) = Returned (Some (JObj ?u'))"
    using w'(2) assms(1,2) by (simp add: fetched_user)
  moreover have "field ''emails'' ?u' = Some (JArr (es[i := JObj (spread ob data)]))"
    by (simp add: field_assign_other field_assign_same)
  moreover have "\<forall>k. field k data = None \<longrightarrow> field k (spread ob data) = field k ob"
    by (simp add: field_spread_other)
  ultimately show ?thesis using w'(1) i ob by blast
qed

lemma find_email_has_email:
  "list_all email_record es \<Longrightarrow>
   list_ex (\<lambda>e. case e of JObj ob \<Rightarrow> field ''value'' ob = Some (JStr email) | _ \<Rightarrow> False) es \<Longrightarrow>
   \<exists>e. find_email email es = Inr (Some e)"
proof (induction es)
  case Nil
  then show ?case by simp
next
  case (Cons x es)
  from Cons.prems(1) email_recordD [of x] obtain ob where x: "x = JObj ob" by auto
  show ?case
  proof (cases "field ''value'' ob = Some (JStr email)")
    case True
    with x show ?thesis by simp
  next
    case False
    with Cons x show ?thesis by simp
  qed
qed

text \<open>
  C1, amended. When the user's \<open>emails\<close> has an entry with the address and
  \<open>data\<close> is given, \<open>assertUserEmailData\<close> puts \<open>{ ...entry, ...data }\<close> in
  the place of that entry: every field of the old entry that \<open>data\<close> does not name
  is kept.
\<close>

theorem email_entry_merged:
  assumes "initted d" and "users d = Some n"
    and "fst (fetchUserById userId (d, w)) = Returned (Some (JObj u))"
    and "user_record u" and "has_email email u"
  shows "\<exists>w' u' es i ob. field ''emails'' u = Some (JArr es)
           \<and> i < length es \<and> es ! i = JObj ob
           \<and> field ''value'' ob = Some (JStr email)
           \<and> assertUserEmailData userId email (Some data) (d, w) = (Returned None, d, w')
           \<and> fst (fetchUserById userId (d, w')) = Returned (Some (JObj u'))
           \<and> field ''emails'' u' = Some (JArr (es[i := JObj (spread ob data)]))
           \<and> (\<forall>k. field k data = None \<longrightarrow> field k (spread ob data) = field k ob)"
proof -
  from assms(5) obtain es where es: "field ''emails'' u = Some (JArr es)"
    and ex: "list_ex (\<lambda>e. case e of JObj ob \<Rightarrow> field ''value'' ob = Some (JStr email)
                              | _ \<Rightarrow> False) es"
    by (auto simp: has_email_def split: option.splits jv.splits)
  from assms(4) es have "list_all email_record es"
    by (simp add: user_record_def)
  from find_email_has_email [OF this ex] obtain e where
    e: "find_email email es = Inr (Some e)" by blast
  from email_entry_merged_found [OF assms(1,2,3) es e, of data] es
  show ?thesis by blast
qed

lemma teyla_record: "user_record teyla"
  by (simp add: user_record_def email_record_def scalar_def teyla_def field_def)

theorem email_entry_merged_witness:
  "initted awake \<and> users awake = Some ''users''
   \<and> fst (fetchUserById ''teyla'' (awake, atlantis)) = Returned (Some (JObj teyla))
   \<and> user_record teyla \<and> has_email ''teyla@athos.org'' teyla
   \<and> (\<exists>w' u'. assertUserEmailData ''teyla'' ''teyla@athos.org''
                   (Some [(''verified'', JBool True)]) (awake, atlantis)
                 = (Returned None, awake, w')
           \<and> fst (fetchUserById ''teyla'' (awake, w')) = Returned (Some (JObj u'))
           \<and> field ''emails'' u'
               = Some (JArr [JObj [(''value'', JStr ''teyla@athos.org''),
                                   (''type'', JStr ''home''),
                                   (''verified'', JBool True)]]))"
proof -
  have a: "initted awake" and b: "users awake = Some ''users''"
    by (simp_all add: awake_eq)
  have c: "field ''emails'' teyla
       = Some (JArr [JObj [(''value'', JStr ''teyla@athos.org''), (''type'', JStr ''home'')]])"
    by (simp add: teyla_def field_def)
  have h: "has_email ''teyla@athos.org'' teyla"
    by (simp add: has_email_def teyla_def field_def)
  from email_entry_merged [OF a b teyla_fetched teyla_record h, of "[(''verified'', JBool True)]"]
  obtain w' u' es i ob where
    r: "field ''emails'' teyla = Some (JArr es)"
      "i < length es" "es ! i = JObj ob"
      "assertUserEmailData ''teyla'' ''teyla@athos.org''
          (Some [(''verified'', JBool True)]) (awake, atlantis) = (Returned None, awake, w')"
      "fst (fetchUserById ''teyla'' (awake, w')) = Returned (Some (JObj u'))"
      "field ''emails'' u' = Some (JArr (es[i := JObj (spread ob [(''verified'', JBool True)])]))"
    by blast
  from r(1) c have es: "es = [JObj [(''value'', JStr ''teyla@athos.org''), (''type'', JStr ''home'')]]"
    by simp
  from r(2) es have i0: "i = 0" by simp
  from r(3) es i0 have obv: "ob = [(''value'', JStr ''teyla@athos.org''), (''type'', JStr ''home'')]"
    by simp
  from r(6) have "field ''emails'' u'
               = Some (JArr [JObj [(''value'', JStr ''teyla@athos.org''),
                                   (''type'', JStr ''home''),
                                   (''verified'', JBool True)]])"
    by (simp add: es i0 obv)
  with r(4,5) a b h teyla_fetched teyla_record show ?thesis by blast
qed

end
